theory Spec2Isabelle
  imports Complex_Main "HOL-Library.Sublist"
begin

section \<open>The training loop of the overfit notebook\<close>

text \<open>
  The notebook's \<^verbatim>\<open>train_model\<close> drives a pretrained video classifier through
  epochs of a train and a val phase. The network, the loss, the optimizer, the metric helper
  and the file system are collaborators of the loop: they are parameters of the model below
  (a record of functions), each returning an error value where the Python call can raise.
  Floating-point numbers are taken as reals, Python integers as \<open>int\<close>, counts as \<open>nat\<close>.
\<close>

subsection \<open>Data\<close>

datatype phase = Train | Val

datatype error =
    ZeroDivisionError | AttributeError | IndexError | RuntimeError
  | InvalidInputError | DeviceError | CheckpointIOError

text \<open>
  One element of a dataloader: \<^verbatim>\<open>sample["video"]\<close> is the stacked inputs (one entry per
  clip, so \<^verbatim>\<open>inputs.size(0)\<close> is the length of the list), \<^verbatim>\<open>sample["action"]\<close> the stacked
  one-hot label vectors (one row per clip).
\<close>

record 'x sample =
  video :: "'x list"
  action :: "real list list"

text \<open>
  A dataloader: the batches it yields in order, and \<^verbatim>\<open>len(dataloader.dataset)\<close>.
  The dictionary \<^verbatim>\<open>dataloaders\<close> with keys train and val is a function of the phase.
\<close>

record 'x dataloader =
  batches :: "'x sample list"
  dataset_len :: nat

text \<open>
  The live model and optimizer. \<open>state_dict\<close> is what \<^verbatim>\<open>model.state_dict()\<close> reads and
  \<^verbatim>\<open>load_state_dict\<close> writes, \<open>training\<close> the mode set by \<^verbatim>\<open>model.train()\<close> and
  \<^verbatim>\<open>model.eval()\<close>, \<open>optim\<close> the optimizer's state together with the accumulated
  gradients.
\<close>

record ('w, 's) live =
  state_dict :: 'w
  training :: bool
  optim :: 's

text \<open>
  \<^verbatim>\<open>running_corrects\<close> starts as the Python integer 0 and becomes a tensor with the first
  \<^verbatim>\<open>+= torch.sum(...)\<close>; only a tensor has \<^verbatim>\<open>.double()\<close>.
\<close>

datatype count = PyInt nat | Tensor nat

fun count_val :: "count \<Rightarrow> nat" where
  "count_val (PyInt n) = n"
| "count_val (Tensor n) = n"

fun double :: "count \<Rightarrow> error + real" where
  "double (PyInt n) = Inl AttributeError"
| "double (Tensor n) = Inr (real n)"

record stats =
  running_loss :: real
  running_corrects :: count
  pred_classes :: "nat list"
  ground_truths :: "nat list"

record history_record =
  model_name :: string
  train_loss :: real
  val_loss :: real
  train_accuracy :: real
  val_accuracy :: real
  train_f1 :: real
  val_f1 :: real
  train_precision :: real
  val_precision :: real
  train_recall :: real
  val_recall :: real
  train_confusion_matrix :: "nat list list"
  val_confusion_matrix :: "nat list list"

text \<open>
  What the run leaves outside itself, in the order it happens: the console lines of
  lines 143, 156/179, 159/182 and 211 of the notebook, the checkpoint files and the rows
  of the history file. The two lines that print elapsed wall-clock time are left out.
\<close>

datatype ('w, 's) event =
    SessionInit
  | PhaseLine phase real real
  | EpochLine phase int real real
  | MatrixLine phase "nat list list"
  | Checkpoint string int 'w 's
  | HistoryRecord history_record
  | BestLine real

text \<open>The collaborators of the loop.\<close>

record ('w, 's, 'x) env =
  forward :: "bool \<Rightarrow> 'w \<Rightarrow> 'x list \<Rightarrow> error + real list list"
  criterion :: "real list list \<Rightarrow> nat list \<Rightarrow> error + real"
  zero_grad :: "'s \<Rightarrow> 's"
  backward :: "'w \<Rightarrow> 's \<Rightarrow> 'x list \<Rightarrow> nat list \<Rightarrow> error + 's"
  step :: "'w \<Rightarrow> 's \<Rightarrow> error + 'w \<times> 's"
  get_acc_f1_precision_recall :: "nat list \<Rightarrow> nat list \<Rightarrow> error + real \<times> real \<times> real \<times> real"
  init_io :: "error + unit"
  save_io :: "'w \<Rightarrow> 's \<Rightarrow> int \<Rightarrow> error + string"
  history_io :: "history_record \<Rightarrow> error + unit"

text \<open>The state of \<^verbatim>\<open>train_model\<close> between epochs; it is also what the function returns.\<close>

record ('w, 's) train_state =
  model :: "('w, 's) live"
  best_model_wts :: 'w
  best_acc :: real
  train_acc_history :: "real list"
  val_acc_history :: "real list"
  train_loss_history :: "real list"
  val_loss_history :: "real list"
  train_f1_score :: "real list"
  val_f1_score :: "real list"
  plot_epoch :: "int list"
  log :: "('w, 's) event list"

text \<open>
  The values one phase leaves in local variables: the prediction and ground-truth lists of
  the phase, and what \<^verbatim>\<open>write_history\<close> reads after both phases.
\<close>

record phase_out =
  out_pred_classes :: "nat list"
  out_ground_truths :: "nat list"
  epoch_loss :: real
  epoch_acc :: real
  accuracy :: real
  f1 :: real
  precision :: real
  recall :: real
  confusion :: "nat list list"

subsection \<open>Tensor operations\<close>

text \<open>
  \<^verbatim>\<open>torch.max(t, 1)[1]\<close>: for every row the index of its maximum, the first one where
  several entries are maximal. A row without entries cannot be reduced.
\<close>

fun argmax_from :: "real \<Rightarrow> nat \<Rightarrow> nat \<Rightarrow> real list \<Rightarrow> nat" where
  "argmax_from m b i [] = b"
| "argmax_from m b i (x # xs) =
     (if m < x then argmax_from x i (Suc i) xs else argmax_from m b (Suc i) xs)"

fun argmax :: "real list \<Rightarrow> nat" where
  "argmax [] = 0"
| "argmax (x # xs) = argmax_from x 0 1 xs"

definition torch_max_indices :: "real list list \<Rightarrow> error + nat list" where
  "torch_max_indices t = (if [] \<in> set t then Inl IndexError else Inr (map argmax t))"

text \<open>
  \<^verbatim>\<open>torch.sum(preds == truths)\<close> on two index vectors: the number of positions that agree.
  Operands of different length are rejected (the broadcast of a one-element operand is not
  modelled).
\<close>

definition count_equal :: "nat list \<Rightarrow> nat list \<Rightarrow> nat" where
  "count_equal ps ts = length (filter (\<lambda>(p, t). p = t) (zip ps ts))"

definition torch_sum_eq :: "nat list \<Rightarrow> nat list \<Rightarrow> error + nat" where
  "torch_sum_eq ps ts =
     (if length ps = length ts then Inr (count_equal ps ts) else Inl RuntimeError)"

definition one_hot :: "nat \<Rightarrow> nat \<Rightarrow> real list" where
  "one_hot n k = (replicate n 0)[k := 1]"

subsection \<open>Metrics\<close>

text \<open>
  Modelled from the spec: \<^verbatim>\<open>confusion_matrix\<close> is imported from sklearn.metrics and is not
  among the sources. The spec (4.1) describes it as a count matrix over the given label
  set, rows indexed by ground truth and columns by prediction, failing with
  InvalidInputError when the lengths differ or a value is outside the label set.
\<close>

definition confusion_matrix :: "nat list \<Rightarrow> nat list \<Rightarrow> nat list \<Rightarrow> error + nat list list" where
  "confusion_matrix y_true y_pred labels =
     (if length y_true \<noteq> length y_pred
         \<or> \<not> set y_true \<subseteq> set labels \<or> \<not> set y_pred \<subseteq> set labels
      then Inl InvalidInputError
      else Inr (map (\<lambda>t. map (\<lambda>p. length (filter (\<lambda>(a, b). a = t \<and> b = p) (zip y_true y_pred)))
                             labels) labels))"

definition class_labels :: "nat list" where
  "class_labels = [0, 1, 2, 3, 4, 5, 6, 7, 8, 9]"

text \<open>
  Modelled from the spec: the accuracy of the Metrics Calculator
  (\<^verbatim>\<open>utils.metrics.get_acc_f1_precision_recall\<close>, not among the sources) is the fraction
  of positions where the prediction equals the ground truth (spec 4.1 and 8).
\<close>

definition fraction_correct :: "nat list \<Rightarrow> nat list \<Rightarrow> real" where
  "fraction_correct ps ts = real (count_equal ps ts) / real (length ps)"

subsection \<open>Checkpoint store\<close>

text \<open>
  Modelled from the spec: \<^verbatim>\<open>init_session_history\<close>, \<^verbatim>\<open>save_weights\<close> and
  \<^verbatim>\<open>write_history\<close> come from utils.checkpoints, which is not among the sources. By the
  spec (3, 4.3, 7) \<^verbatim>\<open>save_weights\<close> creates one checkpoint holding the model and optimizer
  state, tagged with the epoch, and returns its name; \<^verbatim>\<open>write_history\<close> appends one
  history record; a failure of either is a CheckpointIOError that leaves what was written
  before in place. Whether the file system call succeeds is the collaborator's answer.
\<close>

definition init_session_history ::
  "('w, 's, 'x) env \<Rightarrow> ('w, 's) event list \<Rightarrow> error \<times> ('w, 's) event list + ('w, 's) event list" where
  "init_session_history E lg =
     (case init_io E of Inl e \<Rightarrow> Inl (e, lg) | Inr u \<Rightarrow> Inr (lg @ [SessionInit]))"

definition save_weights ::
  "('w, 's, 'x) env \<Rightarrow> ('w, 's) event list \<Rightarrow> ('w, 's) live \<Rightarrow> int
     \<Rightarrow> error \<times> ('w, 's) event list + string \<times> ('w, 's) event list" where
  "save_weights E lg M epoch =
     (case save_io E (state_dict M) (optim M) epoch of
        Inl e \<Rightarrow> Inl (e, lg)
      | Inr name \<Rightarrow> Inr (name, lg @ [Checkpoint name epoch (state_dict M) (optim M)]))"

definition write_history ::
  "('w, 's, 'x) env \<Rightarrow> ('w, 's) event list \<Rightarrow> history_record
     \<Rightarrow> error \<times> ('w, 's) event list + ('w, 's) event list" where
  "write_history E lg r =
     (case history_io E r of Inl e \<Rightarrow> Inl (e, lg) | Inr u \<Rightarrow> Inr (lg @ [HistoryRecord r]))"

subsection \<open>One batch\<close>

text \<open>Lines 124 and 125: \<^verbatim>\<open>loss.backward()\<close>, then \<^verbatim>\<open>optimizer.step()\<close>.\<close>

definition optimize ::
  "('w, 's, 'x) env \<Rightarrow> ('w, 's) live \<Rightarrow> 'x list \<Rightarrow> nat list \<Rightarrow> error + ('w, 's) live" where
  "optimize E M inputs truths =
     (case backward E (state_dict M) (optim M) inputs truths of
        Inl e \<Rightarrow> Inl e
      | Inr g \<Rightarrow>
          (case step E (state_dict M) g of
             Inl e \<Rightarrow> Inl e
           | Inr (w, s) \<Rightarrow> Inr (M\<lparr>state_dict := w, optim := s\<rparr>)))"

text \<open>
  The body of the batch loop, lines 96 to 129. Moving the tensors to the device changes no
  value and \<^verbatim>\<open>set_grad_enabled\<close> only decides whether the graph is recorded; neither
  appears. The progress-bar text and its counter \<^verbatim>\<open>train_n_total\<close> are left out.
\<close>

definition process_batch ::
  "('w, 's, 'x) env \<Rightarrow> phase \<Rightarrow> 'x sample \<Rightarrow> ('w, 's) live \<times> stats
     \<Rightarrow> error + ('w, 's) live \<times> stats" where
  "process_batch E ph smp = (\<lambda>(M, A).
     let inputs = video smp;
         labels = action smp;
         M1 = M\<lparr>optim := zero_grad E (optim M)\<rparr>
     in case forward E (training M1) (state_dict M1) inputs of
          Inl e \<Rightarrow> Inl e
        | Inr outputs \<Rightarrow>
     (case torch_max_indices labels of
          Inl e \<Rightarrow> Inl e
        | Inr truths \<Rightarrow>
     (case criterion E outputs truths of
          Inl e \<Rightarrow> Inl e
        | Inr loss \<Rightarrow>
     (case torch_max_indices outputs of
          Inl e \<Rightarrow> Inl e
        | Inr preds \<Rightarrow>
     let A1 = A\<lparr>pred_classes := pred_classes A @ preds,
                ground_truths := ground_truths A @ truths\<rparr>
     in (case (if ph = Train then optimize E M1 inputs truths else Inr M1) of
          Inl e \<Rightarrow> Inl e
        | Inr M2 \<Rightarrow>
     (case torch_sum_eq preds truths of
          Inl e \<Rightarrow> Inl e
        | Inr c \<Rightarrow>
            Inr (M2, A1\<lparr>running_loss := running_loss A1 + loss * real (length inputs),
                        running_corrects := Tensor (count_val (running_corrects A1) + c)\<rparr>)))))))"

text \<open>
  The batch loop, lines 94 to 135: \<open>i\<close> counts the batches of this phase and the loop is
  left when it reaches 10. The result carries the final \<open>i\<close>.
\<close>

fun batch_loop ::
  "('w, 's, 'x) env \<Rightarrow> phase \<Rightarrow> 'x sample list \<Rightarrow> nat \<Rightarrow> ('w, 's) live \<times> stats
     \<Rightarrow> error + nat \<times> ('w, 's) live \<times> stats" where
  "batch_loop E ph [] i MA = Inr (i, MA)"
| "batch_loop E ph (smp # rest) i MA =
     (case process_batch E ph smp MA of
        Inl e \<Rightarrow> Inl e
      | Inr MA' \<Rightarrow> if Suc i = 10 then Inr (Suc i, MA') else batch_loop E ph rest (Suc i) MA')"

subsection \<open>One phase\<close>

text \<open>
  Lines 149 to 159 and 172 to 182: the metric helper on the phase's prediction and
  ground-truth lists, the confusion matrix over the ten fixed labels (ground truth first,
  predictions second), and the two report lines. \<^verbatim>\<open>np.array_str\<close> only renders the
  matrix as text; the matrix itself is kept.
\<close>

definition phase_metrics ::
  "('w, 's, 'x) env \<Rightarrow> phase \<Rightarrow> int \<Rightarrow> ('w, 's) event list \<Rightarrow> stats \<Rightarrow> real \<Rightarrow> real
     \<Rightarrow> error \<times> ('w, 's) event list + phase_out \<times> ('w, 's) event list" where
  "phase_metrics E ph epoch lg A el ea =
     (case get_acc_f1_precision_recall E (pred_classes A) (ground_truths A) of
        Inl e \<Rightarrow> Inl (e, lg)
      | Inr (acc, f, p, r) \<Rightarrow>
          (case confusion_matrix (ground_truths A) (pred_classes A) class_labels of
             Inl e \<Rightarrow> Inl (e, lg)
           | Inr cm \<Rightarrow>
               Inr (\<lparr>out_pred_classes = pred_classes A, out_ground_truths = ground_truths A,
                      epoch_loss = el, epoch_acc = ea, accuracy = acc, f1 = f,
                      precision = p, recall = r, confusion = cm\<rparr>,
                    lg @ [EpochLine ph epoch acc el, MatrixLine ph cm])))"

text \<open>Lines 147, 148, 154 and 162 to 164: the val bookkeeping and the best-model promotion.\<close>

definition record_val :: "('w, 's) train_state \<Rightarrow> phase_out \<Rightarrow> ('w, 's) train_state" where
  "record_val st out =
     (let st1 = st\<lparr>val_acc_history := val_acc_history st @ [epoch_acc out],
                   val_loss_history := val_loss_history st @ [epoch_loss out],
                   val_f1_score := val_f1_score st @ [f1 out]\<rparr>
      in if epoch_acc out > best_acc st1
         then st1\<lparr>best_acc := epoch_acc out, best_model_wts := state_dict (model st1)\<rparr>
         else st1)"

text \<open>Lines 170, 171, 177 and 183: the train bookkeeping.\<close>

definition record_train :: "('w, 's) train_state \<Rightarrow> int \<Rightarrow> phase_out \<Rightarrow> ('w, 's) train_state" where
  "record_train st epoch out =
     st\<lparr>train_acc_history := train_acc_history st @ [epoch_acc out],
        train_loss_history := train_loss_history st @ [epoch_loss out],
        train_f1_score := train_f1_score st @ [f1 out],
        plot_epoch := plot_epoch st @ [epoch]\<rparr>"

text \<open>Lines 81, 82 (85, 86), 88 and 89: the accumulators at the start of a phase.\<close>

definition fresh_stats :: stats where
  "fresh_stats =
     \<lparr>running_loss = 0, running_corrects = PyInt 0, pred_classes = [], ground_truths = []\<rparr>"

text \<open>
  One pass of the phase loop, lines 79 to 186: set the mode, reset the accumulators, run
  the batch loop, divide by the length of the phase's dataset, report, book-keep.
\<close>

definition run_phase ::
  "('w, 's, 'x) env \<Rightarrow> (phase \<Rightarrow> 'x dataloader) \<Rightarrow> phase \<Rightarrow> int \<Rightarrow> ('w, 's) train_state
     \<Rightarrow> error \<times> ('w, 's) event list + ('w, 's) train_state \<times> phase_out" where
  "run_phase E dataloaders ph epoch st =
     (let M0 = (model st)\<lparr>training := (ph = Train)\<rparr>;
          n = dataset_len (dataloaders ph)
      in case batch_loop E ph (batches (dataloaders ph)) 0 (M0, fresh_stats) of
           Inl e \<Rightarrow> Inl (e, log st)
         | Inr (i, M, A) \<Rightarrow>
             if n = 0 then Inl (ZeroDivisionError, log st)
             else
               (case double (running_corrects A) of
                  Inl e \<Rightarrow> Inl (e, log st)
                | Inr rc \<Rightarrow>
                    let el = running_loss A / real n;
                        ea = rc / real n
                    in (case phase_metrics E ph epoch (log st @ [PhaseLine ph el ea]) A el ea of
                          Inl x \<Rightarrow> Inl x
                        | Inr (out, lg) \<Rightarrow>
                            let st1 = st\<lparr>model := M, log := lg\<rparr>
                            in Inr (if ph = Val then record_val st1 out
                                    else record_train st1 epoch out, out))))"

subsection \<open>Epochs\<close>

text \<open>
  One pass of the epoch loop, lines 78 to 207: the phase loop over the fixed list train,
  val, then \<^verbatim>\<open>save_weights\<close>, then \<^verbatim>\<open>write_history\<close>.
\<close>

definition run_epoch ::
  "('w, 's, 'x) env \<Rightarrow> (phase \<Rightarrow> 'x dataloader) \<Rightarrow> int \<Rightarrow> ('w, 's) train_state
     \<Rightarrow> error \<times> ('w, 's) event list + ('w, 's) train_state" where
  "run_epoch E dataloaders epoch st =
     (case run_phase E dataloaders Train epoch st of
        Inl x \<Rightarrow> Inl x
      | Inr (st1, tr) \<Rightarrow>
     (case run_phase E dataloaders Val epoch st1 of
        Inl x \<Rightarrow> Inl x
      | Inr (st2, va) \<Rightarrow>
     (case save_weights E (log st2) (model st2) epoch of
        Inl x \<Rightarrow> Inl x
      | Inr (name, lg) \<Rightarrow>
     (case write_history E lg
             \<lparr>model_name = name,
              train_loss = epoch_loss tr, val_loss = epoch_loss va,
              train_accuracy = accuracy tr, val_accuracy = accuracy va,
              train_f1 = f1 tr, val_f1 = f1 va,
              train_precision = precision tr, val_precision = precision va,
              train_recall = recall tr, val_recall = recall va,
              train_confusion_matrix = confusion tr,
              val_confusion_matrix = confusion va\<rparr> of
        Inl x \<Rightarrow> Inl x
      | Inr lg' \<Rightarrow> Inr (st2\<lparr>log := lg'\<rparr>)))))"

fun epoch_loop ::
  "('w, 's, 'x) env \<Rightarrow> (phase \<Rightarrow> 'x dataloader) \<Rightarrow> int list \<Rightarrow> ('w, 's) train_state
     \<Rightarrow> error \<times> ('w, 's) event list + ('w, 's) train_state" where
  "epoch_loop E dataloaders [] st = Inr st"
| "epoch_loop E dataloaders (epoch # rest) st =
     (case run_epoch E dataloaders epoch st of
        Inl x \<Rightarrow> Inl x
      | Inr st' \<Rightarrow> epoch_loop E dataloaders rest st')"

text \<open>Python's \<^verbatim>\<open>range(a, b)\<close>.\<close>

definition py_range :: "int \<Rightarrow> int \<Rightarrow> int list" where
  "py_range a b = [a..b - 1]"

text \<open>
  \<^verbatim>\<open>train_model\<close>, lines 48 to 215. \<open>lg\<close> is what the console and the files hold when
  the call starts. On success the result is the final state: its \<open>model\<close> is the returned
  model, with the best weights loaded, and its history fields are the returned sequences.
  On failure the result is the exception together with what the console and the files
  hold at that moment.
\<close>

definition initial_state :: "('w, 's) live \<Rightarrow> ('w, 's) event list \<Rightarrow> ('w, 's) train_state" where
  "initial_state M lg =
     \<lparr>model = M, best_model_wts = state_dict M, best_acc = 0,
      train_acc_history = [], val_acc_history = [],
      train_loss_history = [], val_loss_history = [],
      train_f1_score = [], val_f1_score = [],
      plot_epoch = [], log = lg\<rparr>"

definition train_model ::
  "('w, 's, 'x) env \<Rightarrow> ('w, 's) live \<Rightarrow> (phase \<Rightarrow> 'x dataloader) \<Rightarrow> int \<Rightarrow> int
     \<Rightarrow> ('w, 's) event list \<Rightarrow> error \<times> ('w, 's) event list + ('w, 's) train_state" where
  "train_model E M dataloaders start_epoch num_epochs lg =
     (case init_session_history E lg of
        Inl x \<Rightarrow> Inl x
      | Inr lg0 \<Rightarrow>
          (case epoch_loop E dataloaders (py_range start_epoch num_epochs) (initial_state M lg0) of
             Inl x \<Rightarrow> Inl x
           | Inr st \<Rightarrow>
               Inr (st\<lparr>model := (model st)\<lparr>state_dict := best_model_wts st\<rparr>,
                       log := log st @ [BestLine (best_acc st)]\<rparr>)))"

subsection \<open>A small instance\<close>

text \<open>
  A toy run used to evaluate the definitions: the weights and the optimizer state are
  counters, every optimizer step adds one to the weights, the network answers class 0 for
  every clip while its weights are below 2 and class 1 afterwards, the loss is the number
  of wrong answers in the batch, two classes are scored.
\<close>

definition toy_env :: "(nat, nat, nat) env" where
  "toy_env =
     \<lparr>forward = (\<lambda>tr w xs. Inr (map (\<lambda>x. if w < 2 then [1, 0] else [0, 1]) xs)),
      criterion = (\<lambda>out ts. Inr (real (length ts - count_equal (map argmax out) ts))),
      zero_grad = (\<lambda>s. 0),
      backward = (\<lambda>w s xs ts. Inr (Suc s)),
      step = (\<lambda>w s. Inr (Suc w, s)),
      get_acc_f1_precision_recall = (\<lambda>ps ts. Inr (fraction_correct ps ts, 0, 0, 0)),
      init_io = Inr (),
      save_io = (\<lambda>w s e. Inr ''ckpt''),
      history_io = (\<lambda>r. Inr ())\<rparr>"

definition toy_live :: "(nat, nat) live" where
  "toy_live = \<lparr>state_dict = 0, training = False, optim = 0\<rparr>"

text \<open>A batch of \<open>n\<close> clips that all carry the class \<open>k\<close> (of two).\<close>

definition toy_batch :: "nat \<Rightarrow> nat \<Rightarrow> nat sample" where
  "toy_batch n k = \<lparr>video = replicate n 0, action = replicate n (one_hot 2 k)\<rparr>"

definition toy_loaders :: "nat \<Rightarrow> phase \<Rightarrow> nat dataloader" where
  "toy_loaders k ph = \<lparr>batches = [toy_batch 1 k], dataset_len = 1\<rparr>"

text \<open>Twelve batches of one clip each, all of class 0, over a dataset of twelve clips.\<close>

definition toy_capped :: "phase \<Rightarrow> nat dataloader" where
  "toy_capped ph = \<lparr>batches = replicate 12 (toy_batch 1 0), dataset_len = 12\<rparr>"

subsection \<open>Auxiliary notions\<close>

text \<open>
  The accumulators agree with the lists of the phase: as many predictions as ground
  truths, and the running count of correct predictions is the number of agreeing positions.
\<close>

definition tallied :: "stats \<Rightarrow> bool" where
  "tallied A \<longleftrightarrow>
     length (pred_classes A) = length (ground_truths A)
     \<and> count_val (running_corrects A) = count_equal (pred_classes A) (ground_truths A)"

text \<open>
  What a log says about the epochs: a phase's statistics were reported for an epoch (the
  report line that carries the epoch number), a checkpoint was written for an epoch, a
  history record was written. The other console lines leave no mark.
\<close>

datatype mark = Stats phase int | Saved int | Wrote

fun mark_of :: "('w, 's) event \<Rightarrow> mark list" where
  "mark_of (EpochLine ph epoch acc el) = [Stats ph epoch]"
| "mark_of (Checkpoint name epoch w s) = [Saved epoch]"
| "mark_of (HistoryRecord r) = [Wrote]"
| "mark_of ev = []"

definition marks :: "('w, 's) event list \<Rightarrow> mark list" where
  "marks lg = concat (map mark_of lg)"

definition epoch_marks :: "int \<Rightarrow> mark list" where
  "epoch_marks epoch = [Stats Train epoch, Stats Val epoch, Saved epoch, Wrote]"

text \<open>The weights held by the checkpoints of a log, oldest first.\<close>

fun saved_weights :: "('w, 's) event \<Rightarrow> 'w list" where
  "saved_weights (Checkpoint name epoch w s) = [w]"
| "saved_weights ev = []"

definition checkpoints :: "('w, 's) event list \<Rightarrow> 'w list" where
  "checkpoints lg = concat (map saved_weights lg)"

text \<open>
  The promotion rule of lines 162 to 164 on its own: the best pair of accuracy and weights
  after a sequence of such pairs, replaced only by a strictly greater accuracy.
\<close>

fun promote :: "real \<times> 'w \<Rightarrow> (real \<times> 'w) list \<Rightarrow> real \<times> 'w" where
  "promote best [] = best"
| "promote best (x # xs) = promote (if fst best < fst x then x else best) xs"

text \<open>
  What the best accuracy is between epochs: the greatest of 0 and the validation
  accuracies recorded so far.
\<close>

definition best_tracks :: "('w, 's) train_state \<Rightarrow> bool" where
  "best_tracks st \<longleftrightarrow> best_acc st = Max (insert 0 (set (val_acc_history st)))"

text \<open>Toy runs from epoch 1 with an empty log, and the first epoch alone.\<close>

definition toy_run ::
  "nat \<Rightarrow> int \<Rightarrow> error \<times> (nat, nat) event list + (nat, nat) train_state" where
  "toy_run k n = train_model toy_env toy_live (toy_loaders k) 1 n []"

definition toy_first_epoch ::
  "nat \<Rightarrow> error \<times> (nat, nat) event list + (nat, nat) train_state" where
  "toy_first_epoch k = run_epoch toy_env (toy_loaders k) 1 (initial_state toy_live [])"















section \<open>Properties\<close>

subsection \<open>The batch loop\<close>






subsection \<open>One batch and one phase\<close>

lemma process_batch_InrD:
  assumes "process_batch E ph smp (M, A) = Inr (M', A')"
  obtains outputs loss where
    "forward E (training M) (state_dict M) (video smp) = Inr outputs"
    "[] \<notin> set (action smp)" "[] \<notin> set outputs"
    "criterion E outputs (map argmax (action smp)) = Inr loss"
    "length outputs = length (action smp)"
    "(if ph = Train
      then optimize E (M\<lparr>optim := zero_grad E (optim M)\<rparr>) (video smp) (map argmax (action smp))
      else Inr (M\<lparr>optim := zero_grad E (optim M)\<rparr>)) = Inr M'"
    "A' = \<lparr>running_loss = running_loss A + loss * real (length (video smp)),
           running_corrects =
             Tensor (count_val (running_corrects A)
                     + count_equal (map argmax outputs) (map argmax (action smp))),
           pred_classes = pred_classes A @ map argmax outputs,
           ground_truths = ground_truths A @ map argmax (action smp)\<rparr>"
  using assms
  by (auto simp: process_batch_def Let_def torch_max_indices_def torch_sum_eq_def
           split: sum.splits if_splits)

lemma process_batch_val_params:
  assumes "process_batch E Val smp (M, A) = Inr (M', A')"
  shows "state_dict M' = state_dict M \<and> training M' = training M"
  using assms by (elim process_batch_InrD) auto

lemma batch_loop_val_params:
  "batch_loop E Val bs i (M, A) = Inr (i', M', A') \<Longrightarrow> state_dict M' = state_dict M"
proof (induction bs arbitrary: i M A)
  case Nil
  then show ?case by simp
next
  case (Cons b bs)
  from Cons.prems obtain M1 A1 where pb: "process_batch E Val b (M, A) = Inr (M1, A1)"
    by (cases "process_batch E Val b (M, A)") auto
  from process_batch_val_params [OF pb] have eq: "state_dict M1 = state_dict M" by simp
  show ?case
  proof (cases "Suc i = 10")
    case True
    with pb Cons.prems eq show ?thesis by simp
  next
    case False
    with pb Cons.prems have "batch_loop E Val bs (Suc i) (M1, A1) = Inr (i', M', A')" by simp
    from Cons.IH [OF this] eq show ?thesis by simp
  qed
qed

lemma count_equal_append:
  "length ps = length ts \<Longrightarrow>
     count_equal (ps @ ps') (ts @ ts') = count_equal ps ts + count_equal ps' ts'"
  by (simp add: count_equal_def)

lemma count_equal_le: "count_equal ps ts \<le> length ps"
  unfolding count_equal_def
  by (rule order_trans [OF length_filter_le]) simp

lemma process_batch_tallied:
  assumes "process_batch E ph smp (M, A) = Inr (M', A')" and "tallied A"
  shows "tallied A'"
  using assms by (elim process_batch_InrD) (simp add: tallied_def count_equal_append)

lemma batch_loop_tallied:
  "batch_loop E ph bs i (M, A) = Inr (i', M', A') \<Longrightarrow> tallied A \<Longrightarrow> tallied A'"
proof (induction bs arbitrary: i M A)
  case Nil
  then show ?case by simp
next
  case (Cons b bs)
  from Cons.prems obtain M1 A1 where pb: "process_batch E ph b (M, A) = Inr (M1, A1)"
    by (cases "process_batch E ph b (M, A)") auto
  from process_batch_tallied [OF pb Cons.prems(2)] have t1: "tallied A1" .
  show ?case
  proof (cases "Suc i = 10")
    case True
    with pb Cons.prems t1 show ?thesis by simp
  next
    case False
    with pb Cons.prems have "batch_loop E ph bs (Suc i) (M1, A1) = Inr (i', M', A')" by simp
    from Cons.IH [OF this t1] show ?thesis .
  qed
qed

lemma tallied_fresh: "tallied fresh_stats"
  by (simp add: tallied_def fresh_stats_def count_equal_def)

lemma run_phase_InrD:
  assumes "run_phase E dls ph epoch st = Inr (st', out)"
  obtains i M A acc f p r cm where
    "batch_loop E ph (batches (dls ph)) 0 ((model st)\<lparr>training := (ph = Train)\<rparr>, fresh_stats)
       = Inr (i, M, A)"
    "dataset_len (dls ph) \<noteq> 0"
    "running_corrects A = Tensor (count_val (running_corrects A))"
    "get_acc_f1_precision_recall E (pred_classes A) (ground_truths A) = Inr (acc, f, p, r)"
    "confusion_matrix (ground_truths A) (pred_classes A) class_labels = Inr cm"
    "out = \<lparr>out_pred_classes = pred_classes A, out_ground_truths = ground_truths A,
            epoch_loss = running_loss A / real (dataset_len (dls ph)),
            epoch_acc = real (count_val (running_corrects A)) / real (dataset_len (dls ph)),
            accuracy = acc, f1 = f, precision = p, recall = r, confusion = cm\<rparr>"
    "st' = (let st1 = st\<lparr>model := M,
                  log := log st @ [PhaseLine ph (epoch_loss out) (epoch_acc out),
                                   EpochLine ph epoch acc (epoch_loss out),
                                   MatrixLine ph cm]\<rparr>
            in if ph = Val then record_val st1 out else record_train st1 epoch out)"
proof -
  from assms obtain i M A where
    bl: "batch_loop E ph (batches (dls ph)) 0 ((model st)\<lparr>training := (ph = Train)\<rparr>, fresh_stats)
       = Inr (i, M, A)"
    by (auto simp: run_phase_def Let_def split: sum.splits)
  from assms bl have n: "dataset_len (dls ph) \<noteq> 0"
    by (auto simp: run_phase_def Let_def split: if_splits)
  from assms bl n obtain c where c: "running_corrects A = Tensor c"
    by (cases "running_corrects A") (auto simp: run_phase_def Let_def)
  from assms bl n c obtain o1 lg1 where
    pm: "phase_metrics E ph epoch
           (log st @ [PhaseLine ph (running_loss A / real (dataset_len (dls ph)))
                                   (real c / real (dataset_len (dls ph)))])
           A (running_loss A / real (dataset_len (dls ph))) (real c / real (dataset_len (dls ph)))
         = Inr (o1, lg1)"
    by (auto simp: run_phase_def Let_def split: sum.splits)
  from pm obtain acc f p r where
    m: "get_acc_f1_precision_recall E (pred_classes A) (ground_truths A) = Inr (acc, f, p, r)"
    by (auto simp: phase_metrics_def split: sum.splits)
  from pm m obtain cm where
    cm: "confusion_matrix (ground_truths A) (pred_classes A) class_labels = Inr cm"
    by (auto simp: phase_metrics_def split: sum.splits)
  from pm m cm have o1: "o1 = \<lparr>out_pred_classes = pred_classes A, out_ground_truths = ground_truths A,
            epoch_loss = running_loss A / real (dataset_len (dls ph)),
            epoch_acc = real c / real (dataset_len (dls ph)),
            accuracy = acc, f1 = f, precision = p, recall = r, confusion = cm\<rparr>"
    and lg1: "lg1 = log st @ [PhaseLine ph (running_loss A / real (dataset_len (dls ph)))
                                   (real c / real (dataset_len (dls ph))),
                            EpochLine ph epoch acc (running_loss A / real (dataset_len (dls ph))),
                            MatrixLine ph cm]"
    by (auto simp: phase_metrics_def)
  from assms bl n c pm have out: "out = o1"
    and st': "st' = (if ph = Val then record_val (st\<lparr>model := M, log := lg1\<rparr>) o1
                     else record_train (st\<lparr>model := M, log := lg1\<rparr>) epoch o1)"
    by (auto simp: run_phase_def Let_def split: if_splits)
  show ?thesis
    by (rule that [OF bl n _ m cm]) (use c out o1 st' lg1 in \<open>simp_all add: Let_def\<close>)
qed

lemma run_phase_val_params:
  assumes "run_phase E dls Val epoch st = Inr (st', out)"
  shows "state_dict (model st') = state_dict (model st)"
proof -
  from assms obtain i M A where
    bl: "batch_loop E Val (batches (dls Val)) 0 ((model st)\<lparr>training := (Val = Train)\<rparr>, fresh_stats)
           = Inr (i, M, A)"
    and m: "model st' = M"
    by (elim run_phase_InrD) (auto simp: Let_def record_val_def)
  from batch_loop_val_params [OF bl] m show ?thesis by simp
qed

lemma optimize_InrD:
  assumes "optimize E M xs ts = Inr M'"
  shows "\<exists>g s. backward E (state_dict M) (optim M) xs ts = Inr g
           \<and> step E (state_dict M) g = Inr (state_dict M', s)"
  using assms by (auto simp: optimize_def split: sum.splits prod.splits)

text \<open>
  C3. A batch of the val phase changes no model parameter: the forward pass runs and the
  predictions and ground truths are recorded, the state dict after the batch is the one
  before it, and so it is after the whole val phase. Backpropagation and the optimizer
  step happen in the train phase, where the new state dict is the optimizer's result.
\<close>

theorem val_phase_keeps_parameters:
  "(process_batch E Val smp (M, A) = Inr (M', A') \<longrightarrow>
      state_dict M' = state_dict M
      \<and> (\<exists>outputs. forward E (training M) (state_dict M) (video smp) = Inr outputs
            \<and> pred_classes A' = pred_classes A @ map argmax outputs
            \<and> ground_truths A' = ground_truths A @ map argmax (action smp)))
   \<and> (run_phase E dls Val epoch st = Inr (st', out) \<longrightarrow>
        state_dict (model st') = state_dict (model st))
   \<and> (process_batch E Train smp (M, A) = Inr (M', A') \<longrightarrow>
        (\<exists>g s. backward E (state_dict M) (zero_grad E (optim M)) (video smp)
                  (map argmax (action smp)) = Inr g
              \<and> step E (state_dict M) g = Inr (state_dict M', s)))"
proof (intro conjI impI)
  assume pb: "process_batch E Val smp (M, A) = Inr (M', A')"
  from process_batch_val_params [OF pb] show "state_dict M' = state_dict M" by simp
  from pb show "\<exists>outputs. forward E (training M) (state_dict M) (video smp) = Inr outputs
            \<and> pred_classes A' = pred_classes A @ map argmax outputs
            \<and> ground_truths A' = ground_truths A @ map argmax (action smp)"
    by (elim process_batch_InrD) simp
next
  assume "run_phase E dls Val epoch st = Inr (st', out)"
  then show "state_dict (model st') = state_dict (model st)" by (rule run_phase_val_params)
next
  assume pb: "process_batch E Train smp (M, A) = Inr (M', A')"
  then have "optimize E (M\<lparr>optim := zero_grad E (optim M)\<rparr>) (video smp) (map argmax (action smp))
               = Inr M'"
    by (elim process_batch_InrD) simp
  from optimize_InrD [OF this]
  show "\<exists>g s. backward E (state_dict M) (zero_grad E (optim M)) (video smp)
                  (map argmax (action smp)) = Inr g
              \<and> step E (state_dict M) g = Inr (state_dict M', s)"
    by simp
qed

theorem val_phase_keeps_parameters_witness:
  "(\<exists>M' A'. process_batch toy_env Val (toy_batch 1 0) (toy_live\<lparr>state_dict := 1\<rparr>, fresh_stats)
               = Inr (M', A') \<and> state_dict M' = 1 \<and> pred_classes A' = [0])
   \<and> (\<exists>st' out. run_phase toy_env (toy_loaders 0) Val 1 (initial_state toy_live []) = Inr (st', out)
         \<and> state_dict (model st') = 0)
   \<and> (\<exists>M' A' g s. process_batch toy_env Train (toy_batch 1 0) (toy_live, fresh_stats) = Inr (M', A')
         \<and> state_dict M' = 1
         \<and> backward toy_env 0 0 [0] [0] = Inr g \<and> step toy_env 0 g = Inr (state_dict M', s))"
proof -
  have "case process_batch toy_env Val (toy_batch 1 0) (toy_live\<lparr>state_dict := 1\<rparr>, fresh_stats) of
          Inl a \<Rightarrow> False | Inr (M', A') \<Rightarrow> pred_classes A' = [0]"
    by code_simp
  then obtain M1 A1 where
    e1: "process_batch toy_env Val (toy_batch 1 0) (toy_live\<lparr>state_dict := 1\<rparr>, fresh_stats) = Inr (M1, A1)"
    and p1: "pred_classes A1 = [0]"
    by (auto split: sum.splits)
  have "case run_phase toy_env (toy_loaders 0) Val 1 (initial_state toy_live []) of
          Inl a \<Rightarrow> False | Inr b \<Rightarrow> True"
    by code_simp
  then obtain st2 out2 where
    e2: "run_phase toy_env (toy_loaders 0) Val 1 (initial_state toy_live []) = Inr (st2, out2)"
    by (auto split: sum.splits)
  have "case process_batch toy_env Train (toy_batch 1 0) (toy_live, fresh_stats) of
          Inl a \<Rightarrow> False | Inr (M', A') \<Rightarrow> state_dict M' = 1"
    by code_simp
  then obtain M3 A3 where
    e3: "process_batch toy_env Train (toy_batch 1 0) (toy_live, fresh_stats) = Inr (M3, A3)"
    and p3: "state_dict M3 = 1"
    by (auto split: sum.splits)
  have tb: "video (toy_batch 1 0) = [0]" "map argmax (action (toy_batch 1 0)) = [0]"
    by code_simp+
  from val_phase_keeps_parameters
         [of toy_env "toy_batch 1 0" "toy_live\<lparr>state_dict := 1\<rparr>" fresh_stats M1 A1
             "toy_loaders 0" 1 "initial_state toy_live []" st2 out2]
       e1 e2
  have k: "state_dict M1 = 1" "state_dict (model st2) = 0"
    by (simp_all add: toy_live_def initial_state_def)
  from val_phase_keeps_parameters [of toy_env "toy_batch 1 0" toy_live fresh_stats M3 A3] e3
  have "\<exists>g s. backward toy_env (state_dict toy_live) (zero_grad toy_env (optim toy_live))
                 (video (toy_batch 1 0)) (map argmax (action (toy_batch 1 0))) = Inr g
              \<and> step toy_env (state_dict toy_live) g = Inr (state_dict M3, s)"
    by blast
  moreover have "zero_grad toy_env (optim toy_live) = 0" "state_dict toy_live = 0"
    by (simp_all add: toy_env_def toy_live_def)
  ultimately obtain g s where "backward toy_env 0 0 [0] [0] = Inr g"
    and "step toy_env 0 g = Inr (state_dict M3, s)"
    unfolding tb by auto
  with e1 e2 e3 p1 p3 k show ?thesis by auto
qed

lemma argmax_from_dominated:
  "\<forall>x \<in> set xs. x \<le> m \<Longrightarrow> argmax_from m b i xs = b"
  by (induction xs arbitrary: i) auto

lemma argmax_from_peak:
  "m < 1 \<Longrightarrow> \<forall>x \<in> set xs. x \<le> m \<Longrightarrow>
     argmax_from m b i (xs @ 1 # replicate j 0) = i + length xs"
proof (induction xs arbitrary: i)
  case Nil
  then show ?case by (simp add: argmax_from_dominated)
next
  case (Cons x xs)
  then show ?case by simp
qed

lemma one_hot_split:
  "k < n \<Longrightarrow> one_hot n k = replicate k 0 @ 1 # replicate (n - Suc k) 0"
  unfolding one_hot_def
  by (induction n arbitrary: k) (auto simp: less_Suc_eq_0_disj replicate_app_Cons_same)

lemma argmax_one_hot: "k < n \<Longrightarrow> argmax (one_hot n k) = k"
proof (cases k)
  case 0
  assume "k < n"
  with 0 show ?thesis by (simp add: one_hot_split argmax_from_dominated)
next
  case (Suc j)
  assume "k < n"
  with Suc have "one_hot n k = 0 # (replicate j 0 @ 1 # replicate (n - Suc k) 0)"
    by (simp add: one_hot_split)
  then show ?thesis using Suc argmax_from_peak [of 0 "replicate j 0" 0 1 "n - Suc k"] by simp
qed

text \<open>
  C8. In either phase the loss of a batch is the criterion applied to the model outputs
  and to the class indices obtained as the row-wise argmax of the one-hot labels; the
  same indices are appended to the phase's ground-truth list. The argmax of the one-hot
  vector of class \<open>k\<close> is \<open>k\<close>.
\<close>

theorem loss_against_label_argmax:
  "(process_batch E ph smp (M, A) = Inr (M', A') \<longrightarrow>
      (\<exists>outputs loss.
          forward E (training M) (state_dict M) (video smp) = Inr outputs
        \<and> torch_max_indices (action smp) = Inr (map argmax (action smp))
        \<and> criterion E outputs (map argmax (action smp)) = Inr loss
        \<and> running_loss A' = running_loss A + loss * real (length (video smp))
        \<and> ground_truths A' = ground_truths A @ map argmax (action smp)))
   \<and> (k < n \<longrightarrow> argmax (one_hot n k) = k)"
proof (intro conjI impI)
  assume "process_batch E ph smp (M, A) = Inr (M', A')"
  then show "\<exists>outputs loss.
          forward E (training M) (state_dict M) (video smp) = Inr outputs
        \<and> torch_max_indices (action smp) = Inr (map argmax (action smp))
        \<and> criterion E outputs (map argmax (action smp)) = Inr loss
        \<and> running_loss A' = running_loss A + loss * real (length (video smp))
        \<and> ground_truths A' = ground_truths A @ map argmax (action smp)"
    by (elim process_batch_InrD) (simp add: torch_max_indices_def)
next
  assume "k < n"
  then show "argmax (one_hot n k) = k" by (rule argmax_one_hot)
qed

lemma run_phase_epoch_acc:
  assumes "run_phase E dls ph epoch st = Inr (st', out)"
  shows "epoch_acc out =
           real (count_equal (out_pred_classes out) (out_ground_truths out))
             / real (dataset_len (dls ph))"
    and "dataset_len (dls ph) \<noteq> 0"
proof -
  from assms obtain i M A where
    bl: "batch_loop E ph (batches (dls ph)) 0 ((model st)\<lparr>training := (ph = Train)\<rparr>, fresh_stats)
           = Inr (i, M, A)"
    and n: "dataset_len (dls ph) \<noteq> 0"
    and out: "out_pred_classes out = pred_classes A" "out_ground_truths out = ground_truths A"
      "epoch_acc out = real (count_val (running_corrects A)) / real (dataset_len (dls ph))"
    by (elim run_phase_InrD) simp
  from batch_loop_tallied [OF bl tallied_fresh] out
  show "epoch_acc out =
           real (count_equal (out_pred_classes out) (out_ground_truths out))
             / real (dataset_len (dls ph))"
    by (simp add: tallied_def)
  from n show "dataset_len (dls ph) \<noteq> 0" .
qed

lemma run_phase_histories:
  assumes "run_phase E dls ph epoch st = Inr (st', out)"
  shows "ph = Train \<longrightarrow> train_acc_history st' = train_acc_history st @ [epoch_acc out]
                       \<and> val_acc_history st' = val_acc_history st
                       \<and> best_acc st' = best_acc st \<and> best_model_wts st' = best_model_wts st"
    and "ph = Val \<longrightarrow> val_acc_history st' = val_acc_history st @ [epoch_acc out]
                     \<and> train_acc_history st' = train_acc_history st
                     \<and> best_acc st' = max (best_acc st) (epoch_acc out)
                     \<and> best_model_wts st' =
                         (if best_acc st < epoch_acc out then state_dict (model st')
                          else best_model_wts st)"
  using assms
  by (elim run_phase_InrD; simp add: Let_def record_val_def record_train_def max_def)+

text \<open>
  C10. The epoch accuracy of a phase, which is appended to the accuracy history and
  compared with the best accuracy, is the number of correct predictions divided by the
  length of the phase's dataset. When fewer samples were processed than the dataset holds
  and at least one prediction was correct, it is smaller than the fraction of correct
  predictions among the processed samples, which is the accuracy of the Metrics
  Calculator on the recorded lists.
\<close>

theorem epoch_acc_over_dataset_length:
  assumes "run_phase E dls ph epoch st = Inr (st', out)"
  shows "epoch_acc out =
           real (count_equal (out_pred_classes out) (out_ground_truths out))
             / real (dataset_len (dls ph))
         \<and> (ph = Train \<longrightarrow> train_acc_history st' = train_acc_history st @ [epoch_acc out])
         \<and> (ph = Val \<longrightarrow> val_acc_history st' = val_acc_history st @ [epoch_acc out]
                          \<and> best_acc st' = max (best_acc st) (epoch_acc out))
         \<and> (length (out_pred_classes out) < dataset_len (dls ph)
              \<and> 0 < count_equal (out_pred_classes out) (out_ground_truths out) \<longrightarrow>
            epoch_acc out < fraction_correct (out_pred_classes out) (out_ground_truths out))"
proof (intro conjI impI)
  show acc: "epoch_acc out =
           real (count_equal (out_pred_classes out) (out_ground_truths out))
             / real (dataset_len (dls ph))"
    by (rule run_phase_epoch_acc [OF assms])
  show "train_acc_history st' = train_acc_history st @ [epoch_acc out]" if "ph = Train"
    using run_phase_histories(1) [OF assms] that by simp
  show "val_acc_history st' = val_acc_history st @ [epoch_acc out]" if "ph = Val"
    using run_phase_histories(2) [OF assms] that by simp
  show "best_acc st' = max (best_acc st) (epoch_acc out)" if "ph = Val"
    using run_phase_histories(2) [OF assms] that by simp
  assume h: "length (out_pred_classes out) < dataset_len (dls ph)
              \<and> 0 < count_equal (out_pred_classes out) (out_ground_truths out)"
  let ?c = "count_equal (out_pred_classes out) (out_ground_truths out)"
  let ?m = "length (out_pred_classes out)"
  let ?n = "dataset_len (dls ph)"
  from h count_equal_le [of "out_pred_classes out" "out_ground_truths out"]
  have m: "0 < ?m" and c: "0 < ?c" and mn: "?m < ?n" by linarith+
  then have "real ?c / real ?n < real ?c / real ?m"
    by (intro divide_strict_left_mono) simp_all
  with acc show "epoch_acc out < fraction_correct (out_pred_classes out) (out_ground_truths out)"
    by (simp add: fraction_correct_def)
qed

theorem loss_against_label_argmax_witness:
  "\<exists>M' A'. process_batch toy_env Val (toy_batch 1 1) (toy_live, fresh_stats) = Inr (M', A')
      \<and> criterion toy_env [[1, 0]] [1] = Inr 1
      \<and> running_loss A' = 1 \<and> ground_truths A' = [1] \<and> argmax (one_hot 2 1) = 1"
proof -
  have "case process_batch toy_env Val (toy_batch 1 1) (toy_live, fresh_stats) of
          Inl a \<Rightarrow> False | Inr b \<Rightarrow> True"
    by code_simp
  then obtain M1 A1 where
    e1: "process_batch toy_env Val (toy_batch 1 1) (toy_live, fresh_stats) = Inr (M1, A1)"
    by (auto split: sum.splits)
  have oh: "argmax (one_hot 2 1) = 1"
    using loss_against_label_argmax [of toy_env Val "toy_batch 1 1" toy_live fresh_stats M1 A1 1 2]
    by simp
  have tb: "video (toy_batch 1 1) = [0]" "action (toy_batch 1 1) = [one_hot 2 1]"
    by (simp_all add: toy_batch_def)
  have fw: "forward toy_env (training toy_live) (state_dict toy_live) [0] = Inr [[1, 0]]"
    by (simp add: toy_env_def toy_live_def)
  have cr: "criterion toy_env [[1, 0]] [1] = Inr 1"
    by (simp add: toy_env_def count_equal_def)
  from loss_against_label_argmax [of toy_env Val "toy_batch 1 1" toy_live fresh_stats M1 A1 1 2] e1
  obtain outputs loss where
    "forward toy_env (training toy_live) (state_dict toy_live) (video (toy_batch 1 1)) = Inr outputs"
    "criterion toy_env outputs (map argmax (action (toy_batch 1 1))) = Inr loss"
    "running_loss A1 = running_loss fresh_stats + loss * real (length (video (toy_batch 1 1)))"
    "ground_truths A1 = ground_truths fresh_stats @ map argmax (action (toy_batch 1 1))"
    by blast
  with tb fw cr oh have "running_loss A1 = 1" "ground_truths A1 = [1]"
    by (simp_all add: fresh_stats_def)
  with e1 cr oh show ?thesis by blast
qed

theorem epoch_acc_over_dataset_length_witness:
  "\<exists>st' out. run_phase toy_env toy_capped Val 1 (initial_state toy_live []) = Inr (st', out)
      \<and> length (out_pred_classes out) = 10
      \<and> dataset_len (toy_capped Val) = 12
      \<and> epoch_acc out = 5 / 6
      \<and> val_acc_history st' = [5 / 6]
      \<and> fraction_correct (out_pred_classes out) (out_ground_truths out) = 1
      \<and> epoch_acc out < fraction_correct (out_pred_classes out) (out_ground_truths out)"
proof -
  have "case run_phase toy_env toy_capped Val 1 (initial_state toy_live []) of
          Inl a \<Rightarrow> False
        | Inr (st', out) \<Rightarrow>
            out_pred_classes out = replicate 10 0 \<and> out_ground_truths out = replicate 10 0"
    by code_simp
  then obtain st1 out1 where
    e1: "run_phase toy_env toy_capped Val 1 (initial_state toy_live []) = Inr (st1, out1)"
    and l1: "out_pred_classes out1 = replicate 10 0" "out_ground_truths out1 = replicate 10 0"
    by (auto split: sum.splits)
  have c: "count_equal (replicate 10 0) (replicate 10 0) = 10"
    by code_simp
  have n: "dataset_len (toy_capped Val) = 12"
    by (simp add: toy_capped_def)
  from epoch_acc_over_dataset_length [OF e1] l1 c n
  have "epoch_acc out1 = 5 / 6"
    and "val_acc_history st1 = [epoch_acc out1]"
    and "epoch_acc out1 < fraction_correct (out_pred_classes out1) (out_ground_truths out1)"
    by (simp_all add: initial_state_def)
  moreover from l1 c have "fraction_correct (out_pred_classes out1) (out_ground_truths out1) = 1"
    by (simp add: fraction_correct_def)
  ultimately show ?thesis using e1 l1 n by auto
qed


subsection \<open>The confusion matrix\<close>

lemma sum_list_indicator:
  "distinct xs \<Longrightarrow> sum_list (map (\<lambda>x. if b = x then 1 else 0) xs) = (if b \<in> set xs then 1 else (0::nat))"
  by (induction xs) auto

lemma row_sum_pairs:
  assumes "distinct labels" and "snd ` set zs \<subseteq> set labels"
  shows "sum_list (map (\<lambda>p. length (filter (\<lambda>(a, b). a = t \<and> b = p) zs)) labels)
           = length (filter (\<lambda>(a, b). a = t) zs)"
  using assms(2)
proof (induction zs)
  case Nil
  then show ?case by simp
next
  case (Cons z zs)
  obtain a b where z: "z = (a, b)" by (cases z)
  from Cons.prems z have b: "b \<in> set labels" and rest: "snd ` set zs \<subseteq> set labels" by auto
  have "sum_list (map (\<lambda>p. length (filter (\<lambda>(a, b). a = t \<and> b = p) (z # zs))) labels)
          = sum_list (map (\<lambda>p. (if a = t then (if b = p then 1 else 0) else 0)
                               + length (filter (\<lambda>(a, b). a = t \<and> b = p) zs)) labels)"
    by (rule arg_cong [where f = sum_list]) (auto simp: z)
  also have "\<dots> = sum_list (map (\<lambda>p. if a = t then (if b = p then 1 else 0) else 0) labels)
                   + sum_list (map (\<lambda>p. length (filter (\<lambda>(a, b). a = t \<and> b = p) zs)) labels)"
    by (simp add: sum_list_addf)
  also have "sum_list (map (\<lambda>p. if a = t then (if b = p then 1 else 0) else 0) labels)
               = (if a = t then 1 else (0::nat))"
    using sum_list_indicator [OF assms(1), of b] b by (cases "a = t") simp_all
  finally show ?case using Cons.IH [OF rest] by (simp add: z)
qed

lemma count_fst_zip:
  "length ts = length ps \<Longrightarrow> length (filter (\<lambda>(a, b). a = t) (zip ts ps)) = count_list ts t"
  by (induction ts ps rule: list_induct2) auto

lemma distinct_class_labels: "distinct class_labels" and length_class_labels: "length class_labels = 10"
  and set_class_labels: "set class_labels = {..<10}"
  by (auto simp: class_labels_def)


lemma class_labels_upt: "class_labels = [0..<10]"
  by code_simp

lemma class_labels_nth: "t < 10 \<Longrightarrow> class_labels ! t = t"
  by (simp add: class_labels_upt)

lemma confusion_matrix_Inr:
  assumes "length ts = length ps" and "\<forall>c \<in> set ts. c < 10" and "\<forall>c \<in> set ps. c < 10"
  shows "confusion_matrix ts ps class_labels =
           Inr (map (\<lambda>t. map (\<lambda>p. length (filter (\<lambda>(a, b). a = t \<and> b = p) (zip ts ps)))
                             class_labels) class_labels)"
  using assms by (auto simp: confusion_matrix_def set_class_labels)

lemma run_phase_confusion:
  assumes "run_phase E dls ph epoch st = Inr (st', out)"
  shows "confusion_matrix (out_ground_truths out) (out_pred_classes out) class_labels
           = Inr (confusion out)"
  using assms by (elim run_phase_InrD) simp

text \<open>
  C7. For prediction and ground-truth sequences of equal length with values in the class
  set 0 to 9, the confusion matrix over the ten fixed labels is a 10 by 10 count matrix
  whose entry in row \<open>t\<close> and column \<open>p\<close> counts the positions with ground truth
  \<open>t\<close> and prediction \<open>p\<close>; the sum of row \<open>t\<close> is the number of occurrences of
  \<open>t\<close> in the ground truth, and a class that does not occur has a row of zeros. Each
  phase computes its matrix from its ground-truth list and its prediction list, in that
  order.
\<close>

theorem confusion_matrix_row_sums:
  "(length ts = length ps \<and> (\<forall>c \<in> set ts. c < 10) \<and> (\<forall>c \<in> set ps. c < 10) \<longrightarrow>
      (\<exists>cm. confusion_matrix ts ps class_labels = Inr cm
         \<and> length cm = 10 \<and> (\<forall>row \<in> set cm. length row = 10)
         \<and> (\<forall>t < 10. \<forall>p < 10.
               cm ! t ! p = length (filter (\<lambda>(a, b). a = t \<and> b = p) (zip ts ps)))
         \<and> (\<forall>t < 10. sum_list (cm ! t) = count_list ts t)
         \<and> (\<forall>t < 10. t \<notin> set ts \<longrightarrow> cm ! t = replicate 10 0)))
   \<and> (run_phase E dls ph epoch st = Inr (st', out) \<longrightarrow>
        confusion_matrix (out_ground_truths out) (out_pred_classes out) class_labels
          = Inr (confusion out))"
proof (intro conjI impI)
  assume h: "length ts = length ps \<and> (\<forall>c \<in> set ts. c < 10) \<and> (\<forall>c \<in> set ps. c < 10)"
  let ?cell = "\<lambda>t p. length (filter (\<lambda>(a, b). a = t \<and> b = p) (zip ts ps))"
  let ?cm = "map (\<lambda>t. map (?cell t) class_labels) class_labels"
  from h have cm: "confusion_matrix ts ps class_labels = Inr ?cm"
    by (intro confusion_matrix_Inr) simp_all
  have row: "?cm ! t = map (?cell t) class_labels" if "t < 10" for t
    using that by (simp add: length_class_labels class_labels_nth)
  have cell: "?cm ! t ! p = ?cell t p" if "t < 10" "p < 10" for t p
    using that by (simp add: row length_class_labels class_labels_nth)
  have sums: "sum_list (?cm ! t) = count_list ts t" if "t < 10" for t
  proof -
    from h have "snd ` set (zip ts ps) \<subseteq> set class_labels"
      by (auto simp: set_class_labels dest: set_zip_rightD)
    from row_sum_pairs [OF distinct_class_labels this, of t] h that
    show ?thesis by (simp add: row count_fst_zip)
  qed
  have zero: "?cm ! t = replicate 10 0" if "t < 10" "t \<notin> set ts" for t
  proof -
    from that(2) have "?cell t p = 0" for p
      by (auto simp: filter_empty_conv dest: set_zip_leftD)
    then have "map (?cell t) class_labels = replicate 10 0"
      by (simp add: map_replicate_const length_class_labels)
    then show ?thesis unfolding row [OF that(1)] .
  qed
  show "\<exists>cm. confusion_matrix ts ps class_labels = Inr cm
         \<and> length cm = 10 \<and> (\<forall>row \<in> set cm. length row = 10)
         \<and> (\<forall>t < 10. \<forall>p < 10.
               cm ! t ! p = length (filter (\<lambda>(a, b). a = t \<and> b = p) (zip ts ps)))
         \<and> (\<forall>t < 10. sum_list (cm ! t) = count_list ts t)
         \<and> (\<forall>t < 10. t \<notin> set ts \<longrightarrow> cm ! t = replicate 10 0)"
  proof (intro exI [of _ ?cm] conjI allI impI ballI)
    show "confusion_matrix ts ps class_labels = Inr ?cm" by (rule cm)
    show "length ?cm = 10" by (simp add: length_class_labels)
    show "length row = 10" if "row \<in> set ?cm" for row
      using that by (auto simp: length_class_labels)
    show "?cm ! t ! p = ?cell t p" if "t < 10" "p < 10" for t p by (rule cell [OF that])
    show "sum_list (?cm ! t) = count_list ts t" if "t < 10" for t by (rule sums [OF that])
    show "?cm ! t = replicate 10 0" if "t < 10" "t \<notin> set ts" for t by (rule zero [OF that])
  qed
next
  assume "run_phase E dls ph epoch st = Inr (st', out)"
  then show "confusion_matrix (out_ground_truths out) (out_pred_classes out) class_labels
          = Inr (confusion out)"
    by (rule run_phase_confusion)
qed

theorem confusion_matrix_row_sums_witness:
  "(\<exists>cm. confusion_matrix [0, 1, 2, 2] [0, 1, 1, 2] class_labels = Inr cm
      \<and> length cm = 10
      \<and> cm ! 2 ! 1 = 1 \<and> cm ! 2 ! 2 = 1
      \<and> sum_list (cm ! 2) = 2
      \<and> cm ! 3 = replicate 10 0)
   \<and> (\<exists>st' out. run_phase toy_env (toy_loaders 0) Val 1 (initial_state toy_live []) = Inr (st', out)
        \<and> confusion_matrix (out_ground_truths out) (out_pred_classes out) class_labels
             = Inr (confusion out))"
proof -
  have "case run_phase toy_env (toy_loaders 0) Val 1 (initial_state toy_live []) of
          Inl a \<Rightarrow> False | Inr b \<Rightarrow> True"
    by code_simp
  then obtain st1 out1 where
    e1: "run_phase toy_env (toy_loaders 0) Val 1 (initial_state toy_live []) = Inr (st1, out1)"
    by (auto split: sum.splits)
  have h: "length [0, 1, 2, 2 :: nat] = length [0, 1, 1, 2 :: nat]
           \<and> (\<forall>c \<in> set [0, 1, 2, 2 :: nat]. c < 10) \<and> (\<forall>c \<in> set [0, 1, 1, 2 :: nat]. c < 10)"
    by simp
  from confusion_matrix_row_sums
         [of "[0, 1, 2, 2]" "[0, 1, 1, 2]" toy_env "toy_loaders 0" Val 1
             "initial_state toy_live []" st1 out1] h e1
  obtain cm where cm: "confusion_matrix [0, 1, 2, 2] [0, 1, 1, 2] class_labels = Inr cm"
    "length cm = 10"
    "\<forall>t < 10. \<forall>p < 10.
        cm ! t ! p = length (filter (\<lambda>(a, b). a = t \<and> b = p) (zip [0, 1, 2, 2] [0, 1, 1, 2]))"
    "\<forall>t < 10. sum_list (cm ! t) = count_list [0, 1, 2, 2] t"
    "\<forall>t < 10. t \<notin> set [0, 1, 2, 2] \<longrightarrow> cm ! t = replicate 10 0"
    and rp: "confusion_matrix (out_ground_truths out1) (out_pred_classes out1) class_labels
             = Inr (confusion out1)"
    by blast
  from cm(3) have "cm ! 2 ! 1 = 1" "cm ! 2 ! 2 = 1" by simp_all
  moreover from cm(4) have "sum_list (cm ! 2) = 2" by simp
  moreover from cm(5) have "cm ! 3 = replicate 10 0" by simp
  ultimately show ?thesis using cm(1,2) e1 rp by blast
qed

subsection \<open>One epoch\<close>

lemma run_phase_log:
  assumes "run_phase E dls ph epoch st = Inr (st', out)"
  shows "log st' = log st @ [PhaseLine ph (epoch_loss out) (epoch_acc out),
                             EpochLine ph epoch (accuracy out) (epoch_loss out),
                             MatrixLine ph (confusion out)]"
  using assms
  by (elim run_phase_InrD) (simp add: Let_def record_val_def record_train_def)

lemma run_phase_model_mode:
  assumes "run_phase E dls ph epoch st = Inr (st', out)"
  shows "ph = Train \<longrightarrow> plot_epoch st' = plot_epoch st @ [epoch]
            \<and> train_loss_history st' = train_loss_history st @ [epoch_loss out]
            \<and> train_f1_score st' = train_f1_score st @ [f1 out]
            \<and> val_loss_history st' = val_loss_history st
            \<and> val_f1_score st' = val_f1_score st"
    and "ph = Val \<longrightarrow> plot_epoch st' = plot_epoch st
            \<and> val_loss_history st' = val_loss_history st @ [epoch_loss out]
            \<and> val_f1_score st' = val_f1_score st @ [f1 out]
            \<and> train_loss_history st' = train_loss_history st
            \<and> train_f1_score st' = train_f1_score st"
  using assms
  by (elim run_phase_InrD; simp add: Let_def record_val_def record_train_def)+

lemma run_epoch_InrD:
  assumes "run_epoch E dls epoch st = Inr st'"
  obtains st1 tr st2 va name r where
    "run_phase E dls Train epoch st = Inr (st1, tr)"
    "run_phase E dls Val epoch st1 = Inr (st2, va)"
    "save_io E (state_dict (model st2)) (optim (model st2)) epoch = Inr name"
    "history_io E r = Inr ()"
    "st' = st2\<lparr>log := log st2 @ [Checkpoint name epoch (state_dict (model st2)) (optim (model st2)),
                                   HistoryRecord r]\<rparr>"
proof -
  from assms obtain st1 tr where
    p1: "run_phase E dls Train epoch st = Inr (st1, tr)"
    by (auto simp: run_epoch_def split: sum.splits)
  from assms p1 obtain st2 va where
    p2: "run_phase E dls Val epoch st1 = Inr (st2, va)"
    by (auto simp: run_epoch_def split: sum.splits)
  from assms p1 p2 obtain name lg where
    sw: "save_weights E (log st2) (model st2) epoch = Inr (name, lg)"
    by (auto simp: run_epoch_def split: sum.splits)
  then have sv: "save_io E (state_dict (model st2)) (optim (model st2)) epoch = Inr name"
    and lg: "lg = log st2 @ [Checkpoint name epoch (state_dict (model st2)) (optim (model st2))]"
    by (auto simp: save_weights_def split: sum.splits)
  from assms p1 p2 sw obtain r lg' where
    wh: "write_history E lg r = Inr lg'" and st': "st' = st2\<lparr>log := lg'\<rparr>"
    by (auto simp: run_epoch_def split: sum.splits)
  then have "history_io E r = Inr ()" and "lg' = lg @ [HistoryRecord r]"
    by (auto simp: write_history_def split: sum.splits)
  with lg st' show ?thesis by (intro that [OF p1 p2 sv]) simp_all
qed

text \<open>What one completed epoch does to the state.\<close>

lemma run_epoch_effect:
  assumes "run_epoch E dls epoch st = Inr st'"
  shows "\<exists>a. val_acc_history st' = val_acc_history st @ [a]
           \<and> checkpoints (log st') = checkpoints (log st) @ [state_dict (model st')]
           \<and> best_acc st' = max (best_acc st) a
           \<and> best_model_wts st' =
               (if best_acc st < a then state_dict (model st') else best_model_wts st)"
    and "marks (log st') = marks (log st) @ epoch_marks epoch"
    and "plot_epoch st' = plot_epoch st @ [epoch]"
    and "length (train_acc_history st') = Suc (length (train_acc_history st))"
    and "length (val_acc_history st') = Suc (length (val_acc_history st))"
    and "length (train_loss_history st') = Suc (length (train_loss_history st))"
    and "length (val_loss_history st') = Suc (length (val_loss_history st))"
    and "length (train_f1_score st') = Suc (length (train_f1_score st))"
    and "length (val_f1_score st') = Suc (length (val_f1_score st))"
proof -
  from assms obtain st1 tr st2 va name r where
    p1: "run_phase E dls Train epoch st = Inr (st1, tr)"
    and p2: "run_phase E dls Val epoch st1 = Inr (st2, va)"
    and st': "st' = st2\<lparr>log := log st2 @ [Checkpoint name epoch (state_dict (model st2)) (optim (model st2)),
                                   HistoryRecord r]\<rparr>"
    by (rule run_epoch_InrD)
  note h1 = run_phase_histories(1) [OF p1, simplified] and h2 = run_phase_histories(2) [OF p2, simplified]
  note l1 = run_phase_log [OF p1] and l2 = run_phase_log [OF p2]
  note m1 = run_phase_model_mode(1) [OF p1, simplified] and m2 = run_phase_model_mode(2) [OF p2, simplified]
  show "\<exists>a. val_acc_history st' = val_acc_history st @ [a]
           \<and> checkpoints (log st') = checkpoints (log st) @ [state_dict (model st')]
           \<and> best_acc st' = max (best_acc st) a
           \<and> best_model_wts st' =
               (if best_acc st < a then state_dict (model st') else best_model_wts st)"
    using h1 h2 l1 l2 st'
    by (intro exI [of _ "epoch_acc va"]) (simp add: checkpoints_def)
  show "marks (log st') = marks (log st) @ epoch_marks epoch"
    using l1 l2 st' by (simp add: marks_def epoch_marks_def)
  show "plot_epoch st' = plot_epoch st @ [epoch]" using m1 m2 st' by simp
  show "length (train_acc_history st') = Suc (length (train_acc_history st))"
    using h1 h2 st' by simp
  show "length (val_acc_history st') = Suc (length (val_acc_history st))"
    using h1 h2 st' by simp
  show "length (train_loss_history st') = Suc (length (train_loss_history st))"
    using m1 m2 st' by simp
  show "length (val_loss_history st') = Suc (length (val_loss_history st))"
    using m1 m2 st' by simp
  show "length (train_f1_score st') = Suc (length (train_f1_score st))"
    using m1 m2 st' by simp
  show "length (val_f1_score st') = Suc (length (val_f1_score st))"
    using m1 m2 st' by simp
qed

subsection \<open>The epoch loop\<close>

lemma promote_first_best:
  "promote (b, w0) xs = (b', w') \<Longrightarrow>
     (if \<forall>x \<in> set xs. fst x \<le> b then b' = b \<and> w' = w0
      else \<exists>k < length xs. xs ! k = (b', w') \<and> b < b'
             \<and> (\<forall>j < length xs. fst (xs ! j) \<le> b') \<and> (\<forall>j < k. fst (xs ! j) < b'))"
proof (induction xs arbitrary: b w0)
  case Nil
  then show ?case by simp
next
  case (Cons x xs)
  obtain a w where x: "x = (a, w)" by (cases x)
  show ?case
  proof (cases "b < a")
    case True
    with Cons.prems x have p: "promote (a, w) xs = (b', w')" by simp
    note IH = Cons.IH [OF p]
    show ?thesis
    proof (cases "\<forall>y \<in> set xs. fst y \<le> a")
      case all: True
      with IH have r: "b' = a" "w' = w" by simp_all
      from True have "\<not> (\<forall>y \<in> set (x # xs). fst y \<le> b)" by (auto simp: x)
      moreover have "\<exists>k < length (x # xs). (x # xs) ! k = (b', w') \<and> b < b'
             \<and> (\<forall>j < length (x # xs). fst ((x # xs) ! j) \<le> b') \<and> (\<forall>j < k. fst ((x # xs) ! j) < b')"
      proof (intro exI [of _ 0] conjI allI impI)
        show "(x # xs) ! 0 = (b', w')" by (simp add: x r)
        show "b < b'" using True r by simp
        show "fst ((x # xs) ! j) \<le> b'" if "j < length (x # xs)" for j
          using that all r by (cases j) (auto simp: x)
      qed simp_all
      ultimately show ?thesis by (simp only: if_False)
    next
      case False
      with IH obtain k where k: "k < length xs" "xs ! k = (b', w')" "a < b'"
        "\<forall>j < length xs. fst (xs ! j) \<le> b'" "\<forall>j < k. fst (xs ! j) < b'"
        by auto
      from True have "\<not> (\<forall>y \<in> set (x # xs). fst y \<le> b)" by (auto simp: x)
      moreover have "\<exists>k < length (x # xs). (x # xs) ! k = (b', w') \<and> b < b'
             \<and> (\<forall>j < length (x # xs). fst ((x # xs) ! j) \<le> b') \<and> (\<forall>j < k. fst ((x # xs) ! j) < b')"
      proof (intro exI [of _ "Suc k"] conjI allI impI)
        show "Suc k < length (x # xs)" using k(1) by simp
        show "(x # xs) ! Suc k = (b', w')" using k(2) by simp
        show "b < b'" using True k(3) by simp
        show "fst ((x # xs) ! j) \<le> b'" if "j < length (x # xs)" for j
          using that k(3,4) by (cases j) (auto simp: x)
        show "fst ((x # xs) ! j) < b'" if "j < Suc k" for j
          using that k(3,5) by (cases j) (auto simp: x)
      qed
      ultimately show ?thesis by (simp only: if_False)
    qed
  next
    case False
    with Cons.prems x have p: "promote (b, w0) xs = (b', w')" by simp
    note IH = Cons.IH [OF p]
    show ?thesis
    proof (cases "\<forall>y \<in> set xs. fst y \<le> b")
      case True
      with IH False show ?thesis by (auto simp: x)
    next
      case nall: False
      with IH obtain k where k: "k < length xs" "xs ! k = (b', w')" "b < b'"
        "\<forall>j < length xs. fst (xs ! j) \<le> b'" "\<forall>j < k. fst (xs ! j) < b'"
        by auto
      from nall have "\<not> (\<forall>y \<in> set (x # xs). fst y \<le> b)" by auto
      moreover have "\<exists>k < length (x # xs). (x # xs) ! k = (b', w') \<and> b < b'
             \<and> (\<forall>j < length (x # xs). fst ((x # xs) ! j) \<le> b') \<and> (\<forall>j < k. fst ((x # xs) ! j) < b')"
      proof (intro exI [of _ "Suc k"] conjI allI impI)
        show "Suc k < length (x # xs)" using k(1) by simp
        show "(x # xs) ! Suc k = (b', w')" using k(2) by simp
        show "b < b'" using k(3) by simp
        show "fst ((x # xs) ! j) \<le> b'" if "j < length (x # xs)" for j
          using that k(3,4) False by (cases j) (auto simp: x)
        show "fst ((x # xs) ! j) < b'" if "j < Suc k" for j
          using that k(3,5) False by (cases j) (auto simp: x)
      qed
      ultimately show ?thesis by (simp only: if_False)
    qed
  qed
qed

lemma epoch_loop_effect:
  "epoch_loop E dls es st = Inr st' \<Longrightarrow>
     (\<exists>as ws. length as = length es \<and> length ws = length es
        \<and> val_acc_history st' = val_acc_history st @ as
        \<and> checkpoints (log st') = checkpoints (log st) @ ws
        \<and> (ws \<noteq> [] \<longrightarrow> last ws = state_dict (model st'))
        \<and> (best_acc st', best_model_wts st') = promote (best_acc st, best_model_wts st) (zip as ws))
     \<and> marks (log st') = marks (log st) @ concat (map epoch_marks es)
     \<and> prefix (log st) (log st')
     \<and> plot_epoch st' = plot_epoch st @ es
     \<and> length (train_acc_history st') = length (train_acc_history st) + length es
     \<and> length (val_acc_history st') = length (val_acc_history st) + length es
     \<and> length (train_loss_history st') = length (train_loss_history st) + length es
     \<and> length (val_loss_history st') = length (val_loss_history st) + length es
     \<and> length (train_f1_score st') = length (train_f1_score st) + length es
     \<and> length (val_f1_score st') = length (val_f1_score st) + length es"
proof (induction es arbitrary: st)
  case Nil
  then show ?case by simp
next
  case (Cons e es)
  from Cons.prems obtain st1 where
    e1: "run_epoch E dls e st = Inr st1" and rest: "epoch_loop E dls es st1 = Inr st'"
    by (cases "run_epoch E dls e st") simp_all
  from run_epoch_effect(1) [OF e1] obtain a where
    a: "val_acc_history st1 = val_acc_history st @ [a]"
    "checkpoints (log st1) = checkpoints (log st) @ [state_dict (model st1)]"
    "best_acc st1 = max (best_acc st) a"
    "best_model_wts st1 = (if best_acc st < a then state_dict (model st1) else best_model_wts st)"
    by blast
  note r = run_epoch_effect(2-) [OF e1]
  from Cons.IH [OF rest] obtain as ws where
    t: "length as = length es" "length ws = length es"
    "val_acc_history st' = val_acc_history st1 @ as"
    "checkpoints (log st') = checkpoints (log st1) @ ws"
    "ws \<noteq> [] \<longrightarrow> last ws = state_dict (model st')"
    "(best_acc st', best_model_wts st') = promote (best_acc st1, best_model_wts st1) (zip as ws)"
    and u: "marks (log st') = marks (log st1) @ concat (map epoch_marks es)"
    "prefix (log st1) (log st')"
    "plot_epoch st' = plot_epoch st1 @ es"
    "length (train_acc_history st') = length (train_acc_history st1) + length es"
    "length (val_acc_history st') = length (val_acc_history st1) + length es"
    "length (train_loss_history st') = length (train_loss_history st1) + length es"
    "length (val_loss_history st') = length (val_loss_history st1) + length es"
    "length (train_f1_score st') = length (train_f1_score st1) + length es"
    "length (val_f1_score st') = length (val_f1_score st1) + length es"
    by blast
  have lw: "ws = [] \<Longrightarrow> state_dict (model st') = state_dict (model st1)"
    using t(2) rest by (cases es) simp_all
  have first: "\<exists>as ws. length as = length (e # es) \<and> length ws = length (e # es)
        \<and> val_acc_history st' = val_acc_history st @ as
        \<and> checkpoints (log st') = checkpoints (log st) @ ws
        \<and> (ws \<noteq> [] \<longrightarrow> last ws = state_dict (model st'))
        \<and> (best_acc st', best_model_wts st') = promote (best_acc st, best_model_wts st) (zip as ws)"
    using t a lw
    by (intro exI [of _ "a # as"] exI [of _ "state_dict (model st1) # ws"])
       (auto simp: max_def)
  from e1 have pl: "prefix (log st) (log st1)"
    by (elim run_epoch_InrD) (auto simp: prefix_def dest!: run_phase_log)
  from first u r pl show ?case by (auto intro: prefix_order.trans)
qed

subsection \<open>The whole run\<close>

lemma train_model_InrD:
  assumes "train_model E M dls start_epoch num_epochs lg = Inr st"
  obtains stE where
    "init_io E = Inr ()"
    "epoch_loop E dls (py_range start_epoch num_epochs) (initial_state M (lg @ [SessionInit]))
       = Inr stE"
    "st = stE\<lparr>model := (model stE)\<lparr>state_dict := best_model_wts stE\<rparr>,
              log := log stE @ [BestLine (best_acc stE)]\<rparr>"
  using assms
  by (auto simp: train_model_def init_session_history_def split: sum.splits)

lemma train_model_first_best:
  assumes "train_model E M dls start_epoch num_epochs lg = Inr st"
  shows "\<exists>ws. checkpoints (log st) = checkpoints lg @ ws
           \<and> length ws = length (val_acc_history st)
           \<and> (if \<forall>a \<in> set (val_acc_history st). a \<le> 0
               then state_dict (model st) = state_dict M
               else \<exists>k < length ws. state_dict (model st) = ws ! k
                      \<and> (\<forall>j < length ws. val_acc_history st ! j \<le> val_acc_history st ! k)
                      \<and> (\<forall>j < k. val_acc_history st ! j < val_acc_history st ! k))"
proof -
  from assms obtain stE where
    el: "epoch_loop E dls (py_range start_epoch num_epochs) (initial_state M (lg @ [SessionInit]))
           = Inr stE"
    and st: "st = stE\<lparr>model := (model stE)\<lparr>state_dict := best_model_wts stE\<rparr>,
                      log := log stE @ [BestLine (best_acc stE)]\<rparr>"
    by (rule train_model_InrD)
  let ?st0 = "initial_state M (lg @ [SessionInit])"
  from epoch_loop_effect [OF el, THEN conjunct1] obtain as ws where
    raw: "length as = length (py_range start_epoch num_epochs)"
    "length ws = length (py_range start_epoch num_epochs)"
    "val_acc_history stE = val_acc_history ?st0 @ as"
    "checkpoints (log stE) = checkpoints (log ?st0) @ ws"
    "(best_acc stE, best_model_wts stE) = promote (best_acc ?st0, best_model_wts ?st0) (zip as ws)"
    by blast
  from raw(1,2) have len: "length as = length ws" by simp
  from raw(3) have h: "val_acc_history stE = as" by (simp add: initial_state_def)
  from raw(4) have c: "checkpoints (log stE) = checkpoints lg @ ws"
    by (simp add: initial_state_def checkpoints_def)
  from raw(5) have p: "promote (0, state_dict M) (zip as ws) = (best_acc stE, best_model_wts stE)"
    by (simp add: initial_state_def)
  from len have fsts: "fst ` set (zip as ws) = set as"
    by (metis map_fst_zip set_map)
  have "(\<forall>x \<in> set (zip as ws). fst x \<le> 0) \<longleftrightarrow> (\<forall>a \<in> fst ` set (zip as ws). a \<le> 0)"
    by simp
  with fsts have ball: "(\<forall>x \<in> set (zip as ws). fst x \<le> 0) \<longleftrightarrow> (\<forall>a \<in> set as. a \<le> 0)"
    by simp
  have nth: "fst (zip as ws ! j) = as ! j" if "j < length ws" for j
    using that len by simp
  show ?thesis
  proof (cases "\<forall>a \<in> set as. a \<le> 0")
    case True
    with ball have "\<forall>x \<in> set (zip as ws). fst x \<le> 0" by simp
    with promote_first_best [OF p] have "best_model_wts stE = state_dict M" by simp
    with True st h c len show ?thesis by (auto simp: checkpoints_def)
  next
    case False
    with ball have "\<not> (\<forall>x \<in> set (zip as ws). fst x \<le> 0)" by simp
    with promote_first_best [OF p] obtain k where
      k: "k < length (zip as ws)" "zip as ws ! k = (best_acc stE, best_model_wts stE)"
      "\<forall>j < length (zip as ws). fst (zip as ws ! j) \<le> best_acc stE"
      "\<forall>j < k. fst (zip as ws ! j) < best_acc stE"
      by auto
    from k(1) len have kl: "k < length ws" by simp
    with k(2) len have bk: "as ! k = best_acc stE" "ws ! k = best_model_wts stE" by simp_all
    have ex: "\<exists>k < length ws. state_dict (model st) = ws ! k
            \<and> (\<forall>j < length ws. val_acc_history st ! j \<le> val_acc_history st ! k)
            \<and> (\<forall>j < k. val_acc_history st ! j < val_acc_history st ! k)"
    proof (intro exI [of _ k] conjI allI impI)
      show "k < length ws" by (rule kl)
      show "state_dict (model st) = ws ! k" using st bk by simp
      have hs: "val_acc_history st = as" using st h by simp
      show "val_acc_history st ! j \<le> val_acc_history st ! k" if "j < length ws" for j
      proof -
        from that len k(3) have "fst (zip as ws ! j) \<le> best_acc stE" by simp
        then have "as ! j \<le> as ! k" unfolding nth [OF that] bk(1) .
        then show ?thesis unfolding hs .
      qed
      show "val_acc_history st ! j < val_acc_history st ! k" if "j < k" for j
      proof -
        from that kl have jl: "j < length ws" by simp
        from that k(4) have "fst (zip as ws ! j) < best_acc stE" by simp
        then have "as ! j < as ! k" unfolding nth [OF jl] bk(1) .
        then show ?thesis unfolding hs .
      qed
    qed
    from False h st have nz: "\<not> (\<forall>a \<in> set (val_acc_history st). a \<le> 0)" by simp
    show ?thesis
    proof (intro exI [of _ ws] conjI)
      from c st show "checkpoints (log st) = checkpoints lg @ ws"
        by (simp add: checkpoints_def)
      from len h st show "length ws = length (val_acc_history st)" by simp
      from nz ex
      show "if \<forall>a \<in> set (val_acc_history st). a \<le> 0
            then state_dict (model st) = state_dict M
            else \<exists>k < length ws. state_dict (model st) = ws ! k
                   \<and> (\<forall>j < length ws. val_acc_history st ! j \<le> val_acc_history st ! k)
                   \<and> (\<forall>j < k. val_acc_history st ! j < val_acc_history st ! k)"
        by (simp only: if_False)
    qed
  qed
qed

lemma train_model_histories:
  assumes "train_model E M dls start_epoch num_epochs lg = Inr st"
  shows "state_dict (model st) = best_model_wts st"
    and "plot_epoch st = py_range start_epoch num_epochs"
    and "length (train_loss_history st) = length (py_range start_epoch num_epochs)"
    and "length (val_loss_history st) = length (py_range start_epoch num_epochs)"
    and "length (train_acc_history st) = length (py_range start_epoch num_epochs)"
    and "length (val_acc_history st) = length (py_range start_epoch num_epochs)"
    and "length (train_f1_score st) = length (py_range start_epoch num_epochs)"
    and "length (val_f1_score st) = length (py_range start_epoch num_epochs)"
    and "marks (log st) = marks lg @ concat (map epoch_marks (py_range start_epoch num_epochs))"
proof -
  from assms obtain stE where
    el: "epoch_loop E dls (py_range start_epoch num_epochs) (initial_state M (lg @ [SessionInit]))
           = Inr stE"
    and st: "st = stE\<lparr>model := (model stE)\<lparr>state_dict := best_model_wts stE\<rparr>,
                      log := log stE @ [BestLine (best_acc stE)]\<rparr>"
    by (rule train_model_InrD)
  note e = epoch_loop_effect [OF el]
  from st show "state_dict (model st) = best_model_wts st" by simp
  from e st show "plot_epoch st = py_range start_epoch num_epochs"
    by (simp add: initial_state_def)
  from e st show "length (train_loss_history st) = length (py_range start_epoch num_epochs)"
    by (simp add: initial_state_def)
  from e st show "length (val_loss_history st) = length (py_range start_epoch num_epochs)"
    by (simp add: initial_state_def)
  from e st show "length (train_acc_history st) = length (py_range start_epoch num_epochs)"
    by (simp add: initial_state_def)
  from e st show "length (val_acc_history st) = length (py_range start_epoch num_epochs)"
    by (simp add: initial_state_def)
  from e st show "length (train_f1_score st) = length (py_range start_epoch num_epochs)"
    by (simp add: initial_state_def)
  from e st show "length (val_f1_score st) = length (py_range start_epoch num_epochs)"
    by (simp add: initial_state_def)
  from e st show "marks (log st) = marks lg @ concat (map epoch_marks (py_range start_epoch num_epochs))"
    by (simp add: initial_state_def marks_def)
qed

lemma py_range_empty: "py_range a a = []"
  by (simp add: py_range_def)

lemma toy_range: "py_range 1 3 = [1, 2]"
  by code_simp

text \<open>
  C1, amended. After the last epoch \<^verbatim>\<open>train_model\<close> loads \<open>best_model_wts\<close> onto the
  live model and returns it with the per-epoch histories and the list of completed epochs.
  When some epoch has a positive validation accuracy, the returned weights are the ones
  the model had at the end of the first epoch that attains the highest validation accuracy
  of the run (the weights its checkpoint holds); when no epoch's validation accuracy
  exceeds 0, the returned weights are the initial ones.
\<close>

theorem returns_first_best_weights:
  assumes "train_model E M dls start_epoch num_epochs lg = Inr st"
  shows "state_dict (model st) = best_model_wts st
       \<and> plot_epoch st = py_range start_epoch num_epochs
       \<and> length (train_loss_history st) = length (py_range start_epoch num_epochs)
       \<and> length (val_loss_history st) = length (py_range start_epoch num_epochs)
       \<and> length (train_acc_history st) = length (py_range start_epoch num_epochs)
       \<and> length (val_acc_history st) = length (py_range start_epoch num_epochs)
       \<and> length (train_f1_score st) = length (py_range start_epoch num_epochs)
       \<and> length (val_f1_score st) = length (py_range start_epoch num_epochs)
       \<and> (\<exists>ws. checkpoints (log st) = checkpoints lg @ ws
             \<and> length ws = length (val_acc_history st)
             \<and> ((\<forall>a \<in> set (val_acc_history st). a \<le> 0) \<longrightarrow>
                    state_dict (model st) = state_dict M)
             \<and> ((\<exists>a \<in> set (val_acc_history st). 0 < a) \<longrightarrow>
                    (\<exists>k < length ws. state_dict (model st) = ws ! k
                        \<and> (\<forall>j < length ws. val_acc_history st ! j \<le> val_acc_history st ! k)
                        \<and> (\<forall>j < k. val_acc_history st ! j < val_acc_history st ! k))))"
proof -
  from train_model_first_best [OF assms] obtain ws where
    ws: "checkpoints (log st) = checkpoints lg @ ws" "length ws = length (val_acc_history st)"
    and pick: "if \<forall>a \<in> set (val_acc_history st). a \<le> 0
               then state_dict (model st) = state_dict M
               else \<exists>k < length ws. state_dict (model st) = ws ! k
                      \<and> (\<forall>j < length ws. val_acc_history st ! j \<le> val_acc_history st ! k)
                      \<and> (\<forall>j < k. val_acc_history st ! j < val_acc_history st ! k)"
    by (elim exE conjE)
  have zero: "state_dict (model st) = state_dict M"
    if "\<forall>a \<in> set (val_acc_history st). a \<le> 0"
    using pick that by (simp only: if_True)
  have pos: "\<exists>k < length ws. state_dict (model st) = ws ! k
                \<and> (\<forall>j < length ws. val_acc_history st ! j \<le> val_acc_history st ! k)
                \<and> (\<forall>j < k. val_acc_history st ! j < val_acc_history st ! k)"
    if "\<exists>a \<in> set (val_acc_history st). 0 < a"
  proof -
    from that have "\<not> (\<forall>a \<in> set (val_acc_history st). a \<le> 0)" by (auto simp: not_le)
    with pick show ?thesis by (simp only: if_False)
  qed
  from ws zero pos have "\<exists>ws. checkpoints (log st) = checkpoints lg @ ws
             \<and> length ws = length (val_acc_history st)
             \<and> ((\<forall>a \<in> set (val_acc_history st). a \<le> 0) \<longrightarrow>
                    state_dict (model st) = state_dict M)
             \<and> ((\<exists>a \<in> set (val_acc_history st). 0 < a) \<longrightarrow>
                    (\<exists>k < length ws. state_dict (model st) = ws ! k
                        \<and> (\<forall>j < length ws. val_acc_history st ! j \<le> val_acc_history st ! k)
                        \<and> (\<forall>j < k. val_acc_history st ! j < val_acc_history st ! k)))"
    by (intro exI [of _ ws] conjI impI)
  then show ?thesis
    by (intro conjI train_model_histories(1-8) [OF assms])
qed

theorem returns_first_best_weights_witness:
  "\<exists>st. toy_run 0 3 = Inr st \<and> plot_epoch st = [1, 2] \<and> val_acc_history st = [1, 0]
      \<and> checkpoints (log st) = [1, 2] \<and> state_dict (model st) = 1"
proof -
  have "case toy_run 0 3 of
          Inl a \<Rightarrow> False
        | Inr st \<Rightarrow> val_acc_history st = [1, 0] \<and> checkpoints (log st) = [1, 2]"
    by code_simp
  then obtain st where
    e: "toy_run 0 3 = Inr st" and h: "val_acc_history st = [1, 0]"
    and c: "checkpoints (log st) = [1, 2]"
    by (auto split: sum.splits)
  from e have tm: "train_model toy_env toy_live (toy_loaders 0) 1 3 [] = Inr st"
    by (simp add: toy_run_def)
  note r = returns_first_best_weights [OF tm]
  from r have pe: "plot_epoch st = [1, 2]" by (simp add: toy_range)
  note ex = r [THEN conjunct2, THEN conjunct2, THEN conjunct2, THEN conjunct2,
               THEN conjunct2, THEN conjunct2, THEN conjunct2, THEN conjunct2]
  from ex obtain ws where
    ws: "checkpoints (log st) = checkpoints ([] :: (nat, nat) event list) @ ws"
    and "length ws = length (val_acc_history st)"
    and "(\<forall>a \<in> set (val_acc_history st). a \<le> 0) \<longrightarrow> state_dict (model st) = state_dict toy_live"
    and pick: "(\<exists>a \<in> set (val_acc_history st). 0 < a) \<longrightarrow>
                 (\<exists>k < length ws. state_dict (model st) = ws ! k
                      \<and> (\<forall>j < length ws. val_acc_history st ! j \<le> val_acc_history st ! k)
                      \<and> (\<forall>j < k. val_acc_history st ! j < val_acc_history st ! k))"
    by (elim exE conjE)
  from ws c have w: "ws = [1, 2]" by (simp add: checkpoints_def)
  from h have "\<exists>a \<in> set (val_acc_history st). 0 < a" by simp
  with pick obtain k where kl: "k < length ws" and kw: "state_dict (model st) = ws ! k"
    and kmax: "\<forall>j < length ws. val_acc_history st ! j \<le> val_acc_history st ! k"
    by blast
  have "k = 0"
  proof (rule ccontr)
    assume "k \<noteq> 0"
    with kl w have "k = 1" by simp
    moreover from kmax w have "val_acc_history st ! 0 \<le> val_acc_history st ! k" by simp
    ultimately show False using h by simp
  qed
  with kw w have "state_dict (model st) = 1" by simp
  with e pe h c show ?thesis by blast
qed

text \<open>
  The claim C1 as first stated fails for a run whose only epoch has validation accuracy 0:
  that epoch is the best of the run and ends with the weights 1, yet the run returns the
  initial weights 0.
\<close>

theorem returns_first_best_weights_counterexample:
  "\<not> isl (toy_run 1 2) \<and> plot_epoch (projr (toy_run 1 2)) = [1]
   \<and> val_acc_history (projr (toy_run 1 2)) = [0]
   \<and> checkpoints (log (projr (toy_run 1 2))) = [1]
   \<and> state_dict (model (projr (toy_run 1 2))) = 0"
  by code_simp

lemma best_tracks_initial: "best_tracks (initial_state M lg)"
  by (simp add: best_tracks_def initial_state_def)

lemma best_tracks_less:
  "best_tracks st \<Longrightarrow>
     best_acc st < x \<longleftrightarrow> 0 < x \<and> (\<forall>p \<in> set (val_acc_history st). p < x)"
  by (simp add: best_tracks_def)

lemma run_epoch_best_tracks:
  assumes "run_epoch E dls epoch st = Inr st'" and "best_tracks st"
  shows "best_tracks st'"
proof -
  from run_epoch_effect(1) [OF assms(1)] obtain a where
    a: "val_acc_history st' = val_acc_history st @ [a]" "best_acc st' = max (best_acc st) a"
    by blast
  have "insert 0 (set (val_acc_history st @ [a])) = insert a (insert 0 (set (val_acc_history st)))"
    by auto
  then have "Max (insert 0 (set (val_acc_history st @ [a])))
               = Max (insert a (insert 0 (set (val_acc_history st))))"
    by (simp only:)
  also have "\<dots> = max a (Max (insert 0 (set (val_acc_history st))))"
    by (rule Max_insert) simp_all
  finally show ?thesis
    using a assms(2) by (simp only: best_tracks_def max.commute)
qed

lemma epoch_loop_best_tracks:
  "epoch_loop E dls es st = Inr st' \<Longrightarrow> best_tracks st \<Longrightarrow> best_tracks st'"
proof (induction es arbitrary: st)
  case Nil
  then show ?case by simp
next
  case (Cons e es)
  from Cons.prems(1) obtain st1 where
    e1: "run_epoch E dls e st = Inr st1" and rest: "epoch_loop E dls es st1 = Inr st'"
    by (cases "run_epoch E dls e st") simp_all
  from Cons.IH [OF rest run_epoch_best_tracks [OF e1 Cons.prems(2)]] show ?case .
qed

text \<open>
  C2, amended. In every epoch of \<^verbatim>\<open>train_model\<close> the best accuracy and the best
  weights are replaced, by the epoch's validation accuracy and the live weights, if and
  only if that accuracy is greater than 0 and strictly exceeds the validation accuracy of
  every previous epoch; otherwise both keep their values. In particular an epoch whose
  validation accuracy equals the current best changes nothing.
\<close>

theorem promotion_iff_strictly_above:
  assumes "epoch_loop E dls past (initial_state M lg0) = Inr st"
    and "run_epoch E dls epoch st = Inr st'"
  shows "\<exists>a. val_acc_history st' = val_acc_history st @ [a]
          \<and> (if 0 < a \<and> (\<forall>p \<in> set (val_acc_history st). p < a)
              then best_acc st' = a \<and> best_model_wts st' = state_dict (model st')
              else best_acc st' = best_acc st \<and> best_model_wts st' = best_model_wts st)
          \<and> (a = best_acc st \<longrightarrow>
                best_acc st' = best_acc st \<and> best_model_wts st' = best_model_wts st)"
proof -
  have bt: "best_acc st < x \<longleftrightarrow> 0 < x \<and> (\<forall>p \<in> set (val_acc_history st). p < x)" for x
    by (rule best_tracks_less [OF epoch_loop_best_tracks [OF assms(1) best_tracks_initial]])
  from run_epoch_effect(1) [OF assms(2)] obtain a where
    a: "val_acc_history st' = val_acc_history st @ [a]"
    "best_acc st' = max (best_acc st) a"
    "best_model_wts st' = (if best_acc st < a then state_dict (model st') else best_model_wts st)"
    by blast
  show ?thesis
  proof (intro exI [of _ a] conjI impI)
    show "val_acc_history st' = val_acc_history st @ [a]" by (rule a(1))
    show "if 0 < a \<and> (\<forall>p \<in> set (val_acc_history st). p < a)
          then best_acc st' = a \<and> best_model_wts st' = state_dict (model st')
          else best_acc st' = best_acc st \<and> best_model_wts st' = best_model_wts st"
    proof (cases "best_acc st < a")
      case True
      with bt [of a] have c: "0 < a \<and> (\<forall>p \<in> set (val_acc_history st). p < a)" by simp
      from True a(2,3) have "best_acc st' = a \<and> best_model_wts st' = state_dict (model st')"
        by (simp add: max_def)
      then show ?thesis unfolding if_P [OF c] .
    next
      case False
      with bt [of a] have c: "\<not> (0 < a \<and> (\<forall>p \<in> set (val_acc_history st). p < a))" by simp
      from False a(2,3) have "best_acc st' = best_acc st \<and> best_model_wts st' = best_model_wts st"
        by (simp add: max_def)
      then show ?thesis unfolding if_not_P [OF c] .
    qed
    show "best_acc st' = best_acc st" if "a = best_acc st" using a(2) that by simp
    show "best_model_wts st' = best_model_wts st" if "a = best_acc st" using a(3) that by simp
  qed
qed

theorem promotion_iff_strictly_above_witness:
  "\<exists>st st'. epoch_loop toy_env (toy_loaders 1) [1] (initial_state toy_live []) = Inr st
      \<and> run_epoch toy_env (toy_loaders 1) 2 st = Inr st'
      \<and> val_acc_history st = [0] \<and> val_acc_history st' = [0, 1]
      \<and> best_acc st' = 1 \<and> best_model_wts st' = 2 \<and> state_dict (model st') = 2"
proof -
  have "case epoch_loop toy_env (toy_loaders 1) [1] (initial_state toy_live []) of
          Inl a \<Rightarrow> False
        | Inr st \<Rightarrow>
            (case run_epoch toy_env (toy_loaders 1) 2 st of
               Inl a \<Rightarrow> False
             | Inr st' \<Rightarrow> val_acc_history st = [0] \<and> val_acc_history st' = [0, 1]
                           \<and> state_dict (model st') = 2)"
    by code_simp
  then obtain st st' where
    e1: "epoch_loop toy_env (toy_loaders 1) [1] (initial_state toy_live []) = Inr st"
    and e2: "run_epoch toy_env (toy_loaders 1) 2 st = Inr st'"
    and h: "val_acc_history st = [0]" "val_acc_history st' = [0, 1]"
    and w: "state_dict (model st') = 2"
    by (auto split: sum.splits)
  from promotion_iff_strictly_above [OF e1 e2] h w
  have "best_acc st' = 1 \<and> best_model_wts st' = 2" by auto
  with e1 e2 h w show ?thesis by blast
qed

text \<open>
  The claim C2 as first stated fails in a first epoch with validation accuracy 0: there is
  no previous epoch to exceed, yet the best weights stay the initial 0 while the live
  weights are 1.
\<close>

theorem promotion_iff_strictly_above_counterexample:
  "\<not> isl (toy_first_epoch 1)
   \<and> val_acc_history (initial_state toy_live []) = []
   \<and> val_acc_history (projr (toy_first_epoch 1)) = [0]
   \<and> state_dict (model (projr (toy_first_epoch 1))) = 1
   \<and> best_model_wts (projr (toy_first_epoch 1)) = 0"
  by code_simp

text \<open>
  C4. Every completed epoch leaves exactly one report of the train statistics, one report
  of the val statistics, one checkpoint and one history record, in this order: the log of
  an epoch, of the epoch loop and of a whole run grows by exactly these four marks per
  epoch, epoch after epoch, and an epoch adds one entry to the train and to the val
  accuracy history.
\<close>

theorem one_record_set_per_epoch:
  "(run_epoch E dls epoch st = Inr st' \<longrightarrow>
      marks (log st') = marks (log st) @ epoch_marks epoch
      \<and> length (train_acc_history st') = Suc (length (train_acc_history st))
      \<and> length (val_acc_history st') = Suc (length (val_acc_history st))
      \<and> plot_epoch st' = plot_epoch st @ [epoch])
   \<and> (epoch_loop E dls es st = Inr st' \<longrightarrow>
        marks (log st') = marks (log st) @ concat (map epoch_marks es))
   \<and> (train_model E M dls start_epoch num_epochs lg = Inr st' \<longrightarrow>
        marks (log st') = marks lg @ concat (map epoch_marks (py_range start_epoch num_epochs)))"
proof (intro conjI impI)
  assume e: "run_epoch E dls epoch st = Inr st'"
  show "marks (log st') = marks (log st) @ epoch_marks epoch"
    by (rule run_epoch_effect(2) [OF e])
  show "length (train_acc_history st') = Suc (length (train_acc_history st))"
    by (rule run_epoch_effect(4) [OF e])
  show "length (val_acc_history st') = Suc (length (val_acc_history st))"
    by (rule run_epoch_effect(5) [OF e])
  show "plot_epoch st' = plot_epoch st @ [epoch]"
    by (rule run_epoch_effect(3) [OF e])
next
  assume "epoch_loop E dls es st = Inr st'"
  from epoch_loop_effect [OF this]
  show "marks (log st') = marks (log st) @ concat (map epoch_marks es)" by simp
next
  assume "train_model E M dls start_epoch num_epochs lg = Inr st'"
  then show "marks (log st') = marks lg @ concat (map epoch_marks (py_range start_epoch num_epochs))"
    by (rule train_model_histories(9))
qed

theorem one_record_set_per_epoch_witness:
  "\<exists>st. toy_run 0 3 = Inr st
      \<and> marks (log st) =
          [Stats Train 1, Stats Val 1, Saved 1, Wrote, Stats Train 2, Stats Val 2, Saved 2, Wrote]"
proof -
  have "case toy_run 0 3 of Inl a \<Rightarrow> False | Inr st \<Rightarrow> True"
    by code_simp
  then obtain st where e: "toy_run 0 3 = Inr st"
    by (auto split: sum.splits)
  then have tm: "train_model toy_env toy_live (toy_loaders 0) 1 3 [] = Inr st"
    by (simp add: toy_run_def)
  have "marks (log st) = marks ([] :: (nat, nat) event list) @ concat (map epoch_marks (py_range 1 3))"
    by (rule one_record_set_per_epoch [THEN conjunct2, THEN conjunct2, THEN mp], rule tm)
  then have "marks (log st) =
          [Stats Train 1, Stats Val 1, Saved 1, Wrote, Stats Train 2, Stats Val 2, Saved 2, Wrote]"
    by (simp add: toy_range marks_def epoch_marks_def)
  with e show ?thesis by blast
qed

text \<open>
  C5. With \<open>num_epochs = start_epoch\<close> no epoch runs: every returned history sequence
  is empty, nothing is reported or written for any epoch, and the returned model is the
  model that was passed in, its parameters being the initial snapshot loaded back. The
  call returns whenever the session history can be initialised.
\<close>

theorem zero_epochs_change_nothing:
  "(train_model E M dls start_epoch start_epoch lg = Inr st \<longrightarrow>
      model st = M
      \<and> train_loss_history st = [] \<and> val_loss_history st = []
      \<and> train_acc_history st = [] \<and> val_acc_history st = []
      \<and> train_f1_score st = [] \<and> val_f1_score st = [] \<and> plot_epoch st = []
      \<and> marks (log st) = marks lg)
   \<and> (init_io E = Inr () \<longrightarrow>
        (\<exists>st. train_model E M dls start_epoch start_epoch lg = Inr st))"
  by (auto simp: train_model_def init_session_history_def py_range_empty initial_state_def
                 marks_def
           split: sum.splits)

theorem zero_epochs_change_nothing_witness:
  "\<exists>st. train_model toy_env (toy_live\<lparr>state_dict := 5\<rparr>) (toy_loaders 0) 1 1 [] = Inr st
      \<and> model st = toy_live\<lparr>state_dict := 5\<rparr>
      \<and> train_loss_history st = [] \<and> val_loss_history st = []
      \<and> train_acc_history st = [] \<and> val_acc_history st = []
      \<and> train_f1_score st = [] \<and> val_f1_score st = [] \<and> plot_epoch st = []"
proof -
  have "init_io toy_env = Inr ()" by (simp add: toy_env_def)
  with zero_epochs_change_nothing [of toy_env "toy_live\<lparr>state_dict := 5\<rparr>" "toy_loaders 0" 1 "[]"]
  obtain st where
    e: "train_model toy_env (toy_live\<lparr>state_dict := 5\<rparr>) (toy_loaders 0) 1 1 [] = Inr st"
    by blast
  with zero_epochs_change_nothing [of toy_env "toy_live\<lparr>state_dict := 5\<rparr>" "toy_loaders 0" 1 "[]" st]
  show ?thesis by blast
qed

subsection \<open>Failures\<close>














end
